theory Spec2Isabelle
  imports Main
begin

section \<open>Values of the host language\<close>

text \<open>
  Entities are ordinary JavaScript objects. A value is a primitive or an object with
  an identity: \<open>ref\<close> is the address of the object, and the strict equality
  \<^verbatim>\<open>===\<close> of two objects compares the addresses only. Numbers are modelled as
  integers.
\<close>

type_synonym ref = nat

datatype jsval =
    Undefined
  | Null
  | JBool bool
  | JNum int
  | JStr string
  | JDate ref int
  | JArr ref "jsval list"
  | JObj ref "(string \<times> jsval) list"

fun objectRef :: "jsval \<Rightarrow> ref option" where
  "objectRef (JDate r _) = Some r"
| "objectRef (JArr r _) = Some r"
| "objectRef (JObj r _) = Some r"
| "objectRef _ = None"

text \<open>\<^verbatim>\<open>a === b\<close>: identity on objects, value equality on primitives.\<close>

definition strictEq :: "jsval \<Rightarrow> jsval \<Rightarrow> bool" where
  "strictEq a b =
     (case objectRef a of
        Some r \<Rightarrow> (case objectRef b of Some r' \<Rightarrow> r = r' | None \<Rightarrow> False)
      | None \<Rightarrow> (case objectRef b of Some r' \<Rightarrow> False | None \<Rightarrow> a = b))"

text \<open>\<^verbatim>\<open>x instanceof Object\<close>.\<close>

definition instanceofObject :: "jsval \<Rightarrow> bool" where
  "instanceofObject a = (objectRef a \<noteq> None)"

text \<open>The truthiness test of \<^verbatim>\<open>if (x)\<close> and \<^verbatim>\<open>!x\<close>.\<close>

fun truthy :: "jsval \<Rightarrow> bool" where
  "truthy Undefined = False"
| "truthy Null = False"
| "truthy (JBool b) = b"
| "truthy (JNum n) = (n \<noteq> 0)"
| "truthy (JStr s) = (s \<noteq> [])"
| "truthy _ = True"

section \<open>Metadata, change maps and subjects\<close>

text \<open>
  \<^verbatim>\<open>column.type\<close> is either the name of a column type or a constructor function such
  as \<^verbatim>\<open>Date\<close>. The metadata is not written during a computation and each metadata
  object carries its address, so that two records are equal exactly when they are the
  same object: \<^verbatim>\<open>changeMap.column === column\<close> is the equality of the records.
\<close>

datatype columnType = TypeName string | TypeConstructor string

record relationMetadata =
  relationRef :: ref
  relationPropertyPath :: string

record columnMetadata =
  columnRef :: ref
  columnPropertyPath :: string
  isVirtual :: bool
  isDiscriminator :: bool
  isUpdateDate :: bool
  isVersion :: bool
  isCreateDate :: bool
  columnType :: columnType
  relationMetadata :: "relationMetadata option"

record entityMetadata =
  columns :: "columnMetadata list"
  relationsWithJoinColumns :: "relationMetadata list"

text \<open>
  The value of a change map is the value read from the entity, or (for a relation) a
  reference to a subject of the batch, given by its position in the list handed to
  \<^verbatim>\<open>compute\<close>.
\<close>

datatype changeValue = Plain jsval | SubjectRef nat

text \<open>
  A change map is the object \<^verbatim>\<open>{column?, relation?, value}\<close>; a missing property reads
  as \<^verbatim>\<open>undefined\<close>, here \<open>None\<close>.
\<close>

record changeMap =
  cmColumn :: "columnMetadata option"
  cmRelation :: "relationMetadata option"
  cmValue :: changeValue

record subject =
  metadata :: entityMetadata
  entity :: jsval
  databaseEntity :: jsval
  mustBeInserted :: bool
  diffColumns :: "columnMetadata list"
  diffRelations :: "relationMetadata list"
  changeMaps :: "changeMap list"

text \<open>
  The metadata accessors, \<^verbatim>\<open>EntityMetadata.compareIds\<close>, the helpers of
  \<^verbatim>\<open>DateUtils\<close> and \<^verbatim>\<open>JSON.stringify\<close> are called by the computer but defined
  elsewhere; they are parameters of the model.
\<close>

record helpers =
  columnGetEntityValue :: "columnMetadata \<Rightarrow> jsval \<Rightarrow> jsval"
  relationGetEntityValue :: "relationMetadata \<Rightarrow> jsval \<Rightarrow> jsval"
  getRelationIdMap :: "relationMetadata \<Rightarrow> jsval \<Rightarrow> jsval"
  compareIds :: "jsval \<Rightarrow> jsval \<Rightarrow> bool"
  mixedDateToDateString :: "jsval \<Rightarrow> jsval"
  mixedDateToTimeString :: "jsval \<Rightarrow> jsval"
  mixedDateToUtcDatetimeString :: "jsval \<Rightarrow> jsval"
  simpleArrayToString :: "jsval \<Rightarrow> jsval"
  jsonStringify :: "jsval \<Rightarrow> jsval"

section \<open>SubjectChangedColumnsComputer.computeDiffColumns\<close>

text \<open>
  The normalisation of lines 67--89: the pair of the normalised entity value and the
  (possibly re-normalised) database value.
\<close>

definition normalizeValues :: "helpers \<Rightarrow> columnType \<Rightarrow> jsval \<Rightarrow> jsval \<Rightarrow> jsval \<times> jsval" where
  "normalizeValues h ty entityValue databaseValue =
     (if entityValue \<noteq> Null \<and> entityValue \<noteq> Undefined then
        if ty = TypeName ''date'' then
          (mixedDateToDateString h entityValue, databaseValue)
        else if ty = TypeName ''time'' then
          (mixedDateToTimeString h entityValue, databaseValue)
        else if ty = TypeName ''datetime'' \<or> ty = TypeConstructor ''Date'' then
          (mixedDateToUtcDatetimeString h entityValue, mixedDateToUtcDatetimeString h databaseValue)
        else if ty = TypeName ''json'' \<or> ty = TypeName ''jsonb'' then
          (jsonStringify h entityValue,
           if databaseValue \<noteq> Null \<and> databaseValue \<noteq> Undefined
           then jsonStringify h databaseValue else databaseValue)
        else if ty = TypeName ''sample-array'' then
          (simpleArrayToString h entityValue, simpleArrayToString h databaseValue)
        else (entityValue, databaseValue)
      else (entityValue, databaseValue))"

text \<open>
  The body of \<^verbatim>\<open>if (subject.databaseEntity) { ... }\<close> for a column: \<open>True\<close> when it
  leaves the callback by one of its two \<^verbatim>\<open>return\<close> statements.
\<close>

definition unchangedAgainstDatabase :: "helpers \<Rightarrow> subject \<Rightarrow> columnMetadata \<Rightarrow> jsval \<Rightarrow> bool" where
  "unchangedAgainstDatabase h s column entityValue =
     (let databaseValue = columnGetEntityValue h column (databaseEntity s) in
      if (case relationMetadata column of
            None \<Rightarrow> False
          | Some rel \<Rightarrow>
              (let v = relationGetEntityValue h rel (entity s) in v \<noteq> Null \<and> v \<noteq> Undefined))
      then True
      else (case normalizeValues h (columnType column) entityValue databaseValue of
              (normalizedValue, databaseValue') \<Rightarrow> strictEq normalizedValue databaseValue'))"

text \<open>
  \<^verbatim>\<open>changeMaps.find(m => m.column === column)\<close> followed by the update of the value of
  the entry found, or by the push of a new entry.
\<close>

fun upsertColumn :: "changeMap list \<Rightarrow> columnMetadata \<Rightarrow> changeValue \<Rightarrow> changeMap list" where
  "upsertColumn [] column v = [\<lparr>cmColumn = Some column, cmRelation = None, cmValue = v\<rparr>]"
| "upsertColumn (m # ms) column v =
     (if cmColumn m = Some column then m\<lparr>cmValue := v\<rparr> # ms
      else m # upsertColumn ms column v)"

text \<open>The callback of \<^verbatim>\<open>subject.metadata.columns.forEach\<close>.\<close>

definition diffColumn :: "helpers \<Rightarrow> subject \<Rightarrow> columnMetadata \<Rightarrow> subject" where
  "diffColumn h s column =
     (if isVirtual column \<or> isDiscriminator column \<or> isUpdateDate column \<or>
         isVersion column \<or> isCreateDate column then s
      else
        let entityValue = columnGetEntityValue h column (entity s) in
        if entityValue = Undefined then s
        else if truthy (databaseEntity s) \<and> unchangedAgainstDatabase h s column entityValue then s
        else s\<lparr>diffColumns := diffColumns s @ [column],
               changeMaps := upsertColumn (changeMaps s) column (Plain entityValue)\<rparr>)"

definition computeDiffColumns :: "helpers \<Rightarrow> subject \<Rightarrow> subject" where
  "computeDiffColumns h s =
     (if \<not> truthy (entity s) then s
      else foldl (diffColumn h) s (columns (metadata s)))"

section \<open>SubjectChangedColumnsComputer.computeDiffRelationalColumns\<close>

text \<open>
  \<^verbatim>\<open>allSubjects.find(s => s.mustBeInserted && s.entity === relatedEntity)\<close>: the
  position of the first subject of the batch that satisfies the test.
\<close>

fun findValueSubject :: "subject list \<Rightarrow> jsval \<Rightarrow> nat \<Rightarrow> nat option" where
  "findValueSubject [] relatedEntity i = None"
| "findValueSubject (x # xs) relatedEntity i =
     (if mustBeInserted x \<and> strictEq (entity x) relatedEntity then Some i
      else findValueSubject xs relatedEntity (Suc i))"

fun upsertRelation :: "changeMap list \<Rightarrow> relationMetadata \<Rightarrow> changeValue \<Rightarrow> changeMap list" where
  "upsertRelation [] relation v = [\<lparr>cmColumn = None, cmRelation = Some relation, cmValue = v\<rparr>]"
| "upsertRelation (m # ms) relation v =
     (if cmRelation m = Some relation then m\<lparr>cmValue := v\<rparr> # ms
      else m # upsertRelation ms relation v)"

text \<open>Lines 136--145: are the related ids of the entity and of the snapshot equal?\<close>

definition areRelatedIdsEqual :: "helpers \<Rightarrow> subject \<Rightarrow> relationMetadata \<Rightarrow> jsval \<Rightarrow> bool" where
  "areRelatedIdsEqual h s relation relatedEntity =
     (let relatedEntityRelationIdMap =
            (if relatedEntity \<noteq> Null \<and> instanceofObject relatedEntity
             then getRelationIdMap h relation relatedEntity else relatedEntity);
          databaseRelatedEntityRelationIdMap = relationGetEntityValue h relation (databaseEntity s)
      in compareIds h relatedEntityRelationIdMap databaseRelatedEntityRelationIdMap)"

text \<open>Lines 153--169: the substitution of a pending sibling and the upsert.\<close>

definition changeRelation :: "subject list \<Rightarrow> subject \<Rightarrow> relationMetadata \<Rightarrow> jsval \<Rightarrow> subject" where
  "changeRelation allSubjects s relation relatedEntity =
     (let v = (case findValueSubject allSubjects relatedEntity 0 of
                 Some i \<Rightarrow> SubjectRef i
               | None \<Rightarrow> Plain relatedEntity)
      in s\<lparr>changeMaps := upsertRelation (changeMaps s) relation v\<rparr>)"

text \<open>
  The callback of \<^verbatim>\<open>subject.metadata.relationsWithJoinColumns.forEach\<close>. The test of
  \<^verbatim>\<open>allSubjects.find\<close> reads \<^verbatim>\<open>mustBeInserted\<close> and \<^verbatim>\<open>entity\<close> only, which no
  step of the computer writes, so the batch is passed as it is when the pass begins.
\<close>

definition diffRelation :: "helpers \<Rightarrow> subject list \<Rightarrow> subject \<Rightarrow> relationMetadata \<Rightarrow> subject" where
  "diffRelation h allSubjects s relation =
     (let relatedEntity = relationGetEntityValue h relation (entity s) in
      if relatedEntity = Undefined then s
      else if truthy (databaseEntity s) then
        if areRelatedIdsEqual h s relation relatedEntity then s
        else changeRelation allSubjects (s\<lparr>diffRelations := diffRelations s @ [relation]\<rparr>)
               relation relatedEntity
      else changeRelation allSubjects s relation relatedEntity)"

definition computeDiffRelationalColumns :: "helpers \<Rightarrow> subject list \<Rightarrow> subject \<Rightarrow> subject" where
  "computeDiffRelationalColumns h allSubjects s =
     (if \<not> truthy (entity s) then s
      else foldl (diffRelation h allSubjects) s (relationsWithJoinColumns (metadata s)))"

section \<open>SubjectChangedColumnsComputer.compute\<close>

text \<open>
  One round of \<^verbatim>\<open>subjects.forEach\<close>: both passes on the subject at position \<open>i\<close>.
  The subjects of a batch are distinct objects, one for each position of the list.
\<close>

definition computeAt :: "helpers \<Rightarrow> subject list \<Rightarrow> nat \<Rightarrow> subject list" where
  "computeAt h subjects i =
     (let subjects1 = subjects[i := computeDiffColumns h (subjects ! i)]
      in subjects1[i := computeDiffRelationalColumns h subjects1 (subjects1 ! i)])"

definition compute :: "helpers \<Rightarrow> subject list \<Rightarrow> subject list" where
  "compute h subjects = foldl (computeAt h) subjects [0..<length subjects]"

section \<open>DeleteQueryBuilder.execute\<close>

text \<open>
  \<^verbatim>\<open>execute\<close> talks to a query runner. Every call it awaits may be rejected; the
  outcome of each call is a field of the runner (\<open>None\<close>: the call succeeds).
\<close>

type_synonym error = string

datatype event =
    StartTransaction
  | BroadcastBeforeRemoveEvent
  | Query
  | BroadcastAfterRemoveEvent
  | CommitTransaction
  | RollbackTransaction
  | Release

text \<open>
  \<open>mainAlias\<close> is \<open>None\<close> when no main alias is set, else the flag
  \<^verbatim>\<open>hasMetadata\<close> of the alias.
\<close>

record expressionMap =
  useTransaction :: bool
  callListeners :: bool
  mainAlias :: "bool option"

record queryRunner =
  isTransactionActive :: bool
  startTransaction :: "error option"
  broadcastBeforeRemoveEvent :: "error option"
  query :: "error + jsval"
  broadcastAfterRemoveEvent :: "error option"
  commitTransaction :: "error option"
  rollbackTransaction :: "error option"
  release :: "error option"

text \<open>
  The query builder: its expression map, the query runner it was given
  (\<^verbatim>\<open>this.queryRunner\<close>, possibly unset), the query runner that the connection creates
  when none was given, and the outcome of building the statement for a builder that has
  a main alias.
\<close>

record deleteQueryBuilder =
  expressionMap :: expressionMap
  thisQueryRunner :: "queryRunner option"
  connectionQueryRunner :: queryRunner
  builtQuery :: "error + string"

text \<open>
  Modelled from the spec: \<^verbatim>\<open>getQueryAndParameters\<close>, called at line 43 before the
  \<^verbatim>\<open>try\<close> block, belongs to the base class of the builder, which is not among the
  sources. Building the statement goes through \<^verbatim>\<open>createDeleteExpression\<close> (line 231),
  which asks for the main table name first: without a main alias the call throws, and
  \<^verbatim>\<open>execute\<close> with it.
\<close>

definition getQueryAndParameters :: "deleteQueryBuilder \<Rightarrow> error + string" where
  "getQueryAndParameters b =
     (case mainAlias (expressionMap b) of
        None \<Rightarrow> Inl ''Error: no main alias''
      | Some hasMetadata \<Rightarrow> builtQuery b)"

text \<open>
  Modelled from the spec: \<^verbatim>\<open>obtainQueryRunner\<close>, called at line 44, belongs to the same
  base class. The query runner obtained is the one the builder was given, else one that
  the connection creates for this call.
\<close>

definition obtainQueryRunner :: "deleteQueryBuilder \<Rightarrow> queryRunner" where
  "obtainQueryRunner b =
     (case thisQueryRunner b of Some qr \<Rightarrow> qr | None \<Rightarrow> connectionQueryRunner b)"

text \<open>The calls made so far, and the local variable \<^verbatim>\<open>transactionStartedByUs\<close>.\<close>

record run =
  trace :: "event list"
  transactionStartedByUs :: bool

datatype deleteResult = DeleteResult jsval

definition startStep :: "expressionMap \<Rightarrow> queryRunner \<Rightarrow> run \<Rightarrow> run \<times> error option" where
  "startStep em qr r =
     (if useTransaction em \<and> \<not> isTransactionActive qr then
        (case startTransaction qr of
           Some e \<Rightarrow> (r\<lparr>trace := trace r @ [StartTransaction]\<rparr>, Some e)
         | None \<Rightarrow> (r\<lparr>trace := trace r @ [StartTransaction], transactionStartedByUs := True\<rparr>, None))
      else (r, None))"

text \<open>
  \<^verbatim>\<open>callListeners === true && mainAlias!.hasMetadata\<close>: reading a property of an
  undefined main alias throws a TypeError.
\<close>

definition listenersCalled :: "expressionMap \<Rightarrow> error + bool" where
  "listenersCalled em =
     (if callListeners em then
        (case mainAlias em of None \<Rightarrow> Inl ''TypeError'' | Some hasMetadata \<Rightarrow> Inr hasMetadata)
      else Inr False)"

definition broadcastStep :: "expressionMap \<Rightarrow> event \<Rightarrow> error option \<Rightarrow> run \<Rightarrow> run \<times> error option" where
  "broadcastStep em ev outcome r =
     (case listenersCalled em of
        Inl e \<Rightarrow> (r, Some e)
      | Inr False \<Rightarrow> (r, None)
      | Inr True \<Rightarrow> (r\<lparr>trace := trace r @ [ev]\<rparr>, outcome))"

definition commitStep :: "queryRunner \<Rightarrow> run \<Rightarrow> run \<times> error option" where
  "commitStep qr r =
     (if transactionStartedByUs r
      then (r\<lparr>trace := trace r @ [CommitTransaction]\<rparr>, commitTransaction qr)
      else (r, None))"

text \<open>The \<^verbatim>\<open>try\<close> block, lines 47--71: it stops at the first call that is rejected.\<close>

definition tryBlock :: "expressionMap \<Rightarrow> queryRunner \<Rightarrow> run \<times> (error + deleteResult)" where
  "tryBlock em qr =
     (case startStep em qr \<lparr>trace = [], transactionStartedByUs = False\<rparr> of
        (r1, Some e) \<Rightarrow> (r1, Inl e)
      | (r1, None) \<Rightarrow>
     (case broadcastStep em BroadcastBeforeRemoveEvent (broadcastBeforeRemoveEvent qr) r1 of
        (r2, Some e) \<Rightarrow> (r2, Inl e)
      | (r2, None) \<Rightarrow>
     (case query qr of
        Inl e \<Rightarrow> (r2\<lparr>trace := trace r2 @ [Query]\<rparr>, Inl e)
      | Inr raw \<Rightarrow>
     (case broadcastStep em BroadcastAfterRemoveEvent (broadcastAfterRemoveEvent qr)
             (r2\<lparr>trace := trace r2 @ [Query]\<rparr>) of
        (r4, Some e) \<Rightarrow> (r4, Inl e)
      | (r4, None) \<Rightarrow>
     (case commitStep qr r4 of
        (r5, Some e) \<Rightarrow> (r5, Inl e)
      | (r5, None) \<Rightarrow> (r5, Inr (DeleteResult raw)))))))"

text \<open>
  The \<^verbatim>\<open>catch\<close> block, lines 73--81: the rollback is attempted when the transaction
  is ours, an error of the rollback itself is swallowed, and the error caught is thrown
  again.
\<close>

definition catchBlock :: "run \<times> (error + deleteResult) \<Rightarrow> run \<times> (error + deleteResult)" where
  "catchBlock x =
     (case x of
        (r, Inl e) \<Rightarrow>
          (if transactionStartedByUs r
           then (r\<lparr>trace := trace r @ [RollbackTransaction]\<rparr>, Inl e)
           else (r, Inl e))
      | (r, Inr res) \<Rightarrow> (r, Inr res))"

text \<open>
  The \<^verbatim>\<open>finally\<close> block, lines 83--87, where \<open>createdByUs\<close> is the test
  \<^verbatim>\<open>queryRunner !== this.queryRunner\<close>: an error of \<^verbatim>\<open>release\<close> replaces the
  pending result, as an exception thrown in a \<^verbatim>\<open>finally\<close> block does.
\<close>

definition finallyBlock :: "bool \<Rightarrow> queryRunner \<Rightarrow> run \<times> (error + deleteResult) \<Rightarrow> run \<times> (error + deleteResult)" where
  "finallyBlock createdByUs qr x =
     (case x of (r, res) \<Rightarrow>
        (if createdByUs then
           (r\<lparr>trace := trace r @ [Release]\<rparr>,
            (case release qr of Some e \<Rightarrow> Inl e | None \<Rightarrow> res))
         else (r, res)))"

text \<open>The \<^verbatim>\<open>try\<close> statement as a whole, lines 47--87.\<close>

definition tryStatement :: "expressionMap \<Rightarrow> bool \<Rightarrow> queryRunner \<Rightarrow> event list \<times> (error + deleteResult)" where
  "tryStatement em createdByUs qr =
     (case finallyBlock createdByUs qr (catchBlock (tryBlock em qr)) of
        (r, res) \<Rightarrow> (trace r, res))"

text \<open>
  \<^verbatim>\<open>execute\<close>, lines 42--88: the calls made on the query runner, and the result or
  the error thrown. An error of line 43 leaves before any call is made.
\<close>

definition createdByUs :: "deleteQueryBuilder \<Rightarrow> bool" where
  "createdByUs b = (thisQueryRunner b \<noteq> Some (obtainQueryRunner b))"


section \<open>Notions used to state the properties\<close>

text \<open>
  The condition under which the callback of the column pass reaches line 95, that is,
  leaves by none of its \<^verbatim>\<open>return\<close> statements.
\<close>

definition columnChanged :: "helpers \<Rightarrow> subject \<Rightarrow> columnMetadata \<Rightarrow> bool" where
  "columnChanged h s column =
     (\<not> (isVirtual column \<or> isDiscriminator column \<or> isUpdateDate column \<or>
         isVersion column \<or> isCreateDate column) \<and>
      columnGetEntityValue h column (entity s) \<noteq> Undefined \<and>
      \<not> (truthy (databaseEntity s) \<and>
         unchangedAgainstDatabase h s column (columnGetEntityValue h column (entity s))))"

text \<open>The condition under which the callback of the relation pass reaches line 153.\<close>

definition relationChanged :: "helpers \<Rightarrow> subject \<Rightarrow> relationMetadata \<Rightarrow> bool" where
  "relationChanged h s relation =
     (relationGetEntityValue h relation (entity s) \<noteq> Undefined \<and>
      \<not> (truthy (databaseEntity s) \<and>
         areRelatedIdsEqual h s relation (relationGetEntityValue h relation (entity s))))"

text \<open>The value that lines 153--157 choose for the change map of a relation.\<close>

definition relationValue :: "helpers \<Rightarrow> subject list \<Rightarrow> subject \<Rightarrow> relationMetadata \<Rightarrow> changeValue" where
  "relationValue h allSubjects s relation =
     (case findValueSubject allSubjects (relationGetEntityValue h relation (entity s)) 0 of
        Some i \<Rightarrow> SubjectRef i
      | None \<Rightarrow> Plain (relationGetEntityValue h relation (entity s)))"

text \<open>The change maps of a list that are tagged with a given column, or relation.\<close>

definition columnEntries :: "columnMetadata \<Rightarrow> changeMap list \<Rightarrow> changeMap list" where
  "columnEntries c ms = filter (\<lambda>m. cmColumn m = Some c) ms"

definition relationEntries :: "relationMetadata \<Rightarrow> changeMap list \<Rightarrow> changeMap list" where
  "relationEntries r ms = filter (\<lambda>m. cmRelation m = Some r) ms"

text \<open>What \<^verbatim>\<open>allSubjects.find\<close> reads of a subject.\<close>

definition signature :: "subject \<Rightarrow> bool \<times> jsval" where
  "signature s = (mustBeInserted s, entity s)"

text \<open>
  A change map is well tagged when it has a column or a relation, and not both; the
  tags of a list are its pairs of column and relation.
\<close>

definition wellTagged :: "changeMap \<Rightarrow> bool" where
  "wellTagged m = ((cmColumn m = None) \<noteq> (cmRelation m = None))"

definition tag :: "changeMap \<Rightarrow> columnMetadata option \<times> relationMetadata option" where
  "tag m = (cmColumn m, cmRelation m)"

definition changeMapsInvariant :: "changeMap list \<Rightarrow> bool" where
  "changeMapsInvariant ms = (list_all wellTagged ms \<and> distinct (map tag ms))"

section \<open>An instance of the helpers\<close>

text \<open>
  Modelled from the spec: the metadata accessors, \<^verbatim>\<open>compareIds\<close> and
  \<^verbatim>\<open>DateUtils\<close> are not among the sources. In this instance a column or relation
  reads the property of the entity named by its property path, the primary key of a
  related entity is its property \<open>id\<close>, two id maps are compared field by field (and
  nothing equals a missing id), and a delimited array is joined with commas. The
  examples contain no Date object and no JSON column: the date helpers return a value
  that is not a Date as it is, and the JSON serialisation is left as the identity.
\<close>

definition propertyOf :: "string \<Rightarrow> jsval \<Rightarrow> jsval" where
  "propertyOf path v =
     (case v of
        JObj _ props \<Rightarrow> (case map_of props path of Some x \<Rightarrow> x | None \<Rightarrow> Undefined)
      | _ \<Rightarrow> Undefined)"

definition exRelationIdMap :: "relationMetadata \<Rightarrow> jsval \<Rightarrow> jsval" where
  "exRelationIdMap relation v = JObj 0 [(''id'', propertyOf ''id'' v)]"

definition exCompareIds :: "jsval \<Rightarrow> jsval \<Rightarrow> bool" where
  "exCompareIds a b =
     (if a = Undefined \<or> a = Null \<or> b = Undefined \<or> b = Null then False
      else (case (a, b) of
              (JObj _ fa, JObj _ fb) \<Rightarrow> fa = fb
            | _ \<Rightarrow> strictEq a b))"

fun joinStrings :: "string list \<Rightarrow> string" where
  "joinStrings [] = []"
| "joinStrings [x] = x"
| "joinStrings (x # y # ys) = x @ '','' @ joinStrings (y # ys)"

fun stringOf :: "jsval \<Rightarrow> string" where
  "stringOf (JStr s) = s"
| "stringOf (JBool b) = (if b then ''true'' else ''false'')"
| "stringOf Null = ''null''"
| "stringOf Undefined = ''undefined''"
| "stringOf _ = ''[object]''"

definition exSimpleArrayToString :: "jsval \<Rightarrow> jsval" where
  "exSimpleArrayToString v =
     (case v of JArr _ xs \<Rightarrow> JStr (joinStrings (map stringOf xs)) | _ \<Rightarrow> v)"

definition exHelpers :: helpers where
  "exHelpers =
     \<lparr>columnGetEntityValue = (\<lambda>c. propertyOf (columnPropertyPath c)),
      relationGetEntityValue = (\<lambda>r. propertyOf (relationPropertyPath r)),
      getRelationIdMap = exRelationIdMap,
      compareIds = exCompareIds,
      mixedDateToDateString = (\<lambda>v. v),
      mixedDateToTimeString = (\<lambda>v. v),
      mixedDateToUtcDatetimeString = (\<lambda>v. v),
      simpleArrayToString = exSimpleArrayToString,
      jsonStringify = (\<lambda>v. v)\<rparr>"

definition plainColumn :: "ref \<Rightarrow> string \<Rightarrow> string \<Rightarrow> columnMetadata" where
  "plainColumn r path ty =
     \<lparr>columnRef = r, columnPropertyPath = path, isVirtual = False, isDiscriminator = False,
      isUpdateDate = False, isVersion = False, isCreateDate = False,
      columnType = TypeName ty, relationMetadata = None\<rparr>"

definition freshSubject :: "columnMetadata list \<Rightarrow> relationMetadata list \<Rightarrow> jsval \<Rightarrow> jsval \<Rightarrow> subject" where
  "freshSubject cs rs e d =
     \<lparr>metadata = \<lparr>columns = cs, relationsWithJoinColumns = rs\<rparr>,
      entity = e, databaseEntity = d, mustBeInserted = False,
      diffColumns = [], diffRelations = [], changeMaps = []\<rparr>"

definition tagRelation :: relationMetadata where
  "tagRelation = \<lparr>relationRef = 20, relationPropertyPath = ''tag''\<rparr>"

definition ownerRelation :: relationMetadata where
  "ownerRelation = \<lparr>relationRef = 21, relationPropertyPath = ''owner''\<rparr>"

section \<open>Example subjects\<close>

text \<open>A subject without an entity, with a change map left by an earlier stage.\<close>

definition absentSubject :: subject where
  "absentSubject =
     (freshSubject [plainColumn 10 ''title'' ''varchar''] [tagRelation] Undefined Undefined)
       \<lparr>changeMaps := [\<lparr>cmColumn = None, cmRelation = Some tagRelation, cmValue = Plain (JNum 1)\<rparr>]\<rparr>"

text \<open>Example columns.\<close>

definition titleColumn :: columnMetadata where
  "titleColumn = plainColumn 10 ''title'' ''varchar''"

definition bodyColumn :: columnMetadata where
  "bodyColumn = plainColumn 12 ''body'' ''text''"


definition tagIdColumn :: columnMetadata where
  "tagIdColumn = (plainColumn 13 ''tagId'' ''int'')\<lparr>relationMetadata := Some tagRelation\<rparr>"


definition draftSubject :: subject where
  "draftSubject =
     freshSubject [titleColumn, bodyColumn] [tagRelation, ownerRelation]
       (JObj 1 [(''body'', Null), (''owner'', Null)]) Undefined"

definition linkedSubject :: subject where
  "linkedSubject =
     freshSubject [tagIdColumn] [tagRelation]
       (JObj 1 [(''tagId'', JNum 5), (''tag'', JObj 2 [(''id'', JNum 7)])])
       (JObj 3 [(''tagId'', JNum 4), (''tag'', JObj 4 [(''id'', JNum 4)])])"

section \<open>Change maps with a single tag\<close>

text \<open>The change maps tagged with a given column and no relation, or with a given relation and no column.\<close>

definition columnOnlyEntries :: "columnMetadata \<Rightarrow> changeMap list \<Rightarrow> changeMap list" where
  "columnOnlyEntries c ms = filter (\<lambda>m. cmColumn m = Some c \<and> cmRelation m = None) ms"

definition relationOnlyEntries :: "relationMetadata \<Rightarrow> changeMap list \<Rightarrow> changeMap list" where
  "relationOnlyEntries r ms = filter (\<lambda>m. cmRelation m = Some r \<and> cmColumn m = None) ms"

section \<open>Further example subjects\<close>

text \<open>A new tag and a new post that refers to it; both are to be inserted.\<close>

definition newTagSubject :: subject where
  "newTagSubject =
     (freshSubject [plainColumn 15 ''name'' ''varchar''] [] (JObj 2 [(''name'', JStr ''x'')]) Undefined)
       \<lparr>mustBeInserted := True\<rparr>"

definition postSubject :: subject where
  "postSubject =
     (freshSubject [] [tagRelation] (JObj 1 [(''tag'', JObj 2 [(''name'', JStr ''x'')])]) Undefined)
       \<lparr>mustBeInserted := True\<rparr>"

text \<open>A subject that already holds a change map, with metadata that repeats a column and a relation.\<close>

definition reworkedSubject :: subject where
  "reworkedSubject =
     (freshSubject [titleColumn, bodyColumn, titleColumn] [ownerRelation, ownerRelation]
        (JObj 1 [(''title'', JStr ''b''), (''body'', Null), (''owner'', JNum 3)]) Undefined)
       \<lparr>changeMaps := [\<lparr>cmColumn = Some titleColumn, cmRelation = None, cmValue = Plain (JStr ''a'')\<rparr>]\<rparr>"

text \<open>A subject whose change maps are malformed when the computation starts.\<close>

definition malformedSubject :: subject where
  "malformedSubject =
     (freshSubject [titleColumn] [ownerRelation]
        (JObj 1 [(''title'', JStr ''b''), (''owner'', JNum 3)]) Undefined)
       \<lparr>changeMaps :=
          [\<lparr>cmColumn = Some titleColumn, cmRelation = Some ownerRelation, cmValue = Plain (JStr ''a'')\<rparr>,
           \<lparr>cmColumn = Some titleColumn, cmRelation = None, cmValue = Plain (JStr ''a'')\<rparr>]\<rparr>"

text \<open>A delimited-array column, and an entity loaded and saved again with the same tags.\<close>

definition tagsColumn :: columnMetadata where
  "tagsColumn = plainColumn 14 ''tags'' ''simple-array''"

definition arraySubject :: subject where
  "arraySubject =
     freshSubject [tagsColumn] []
       (JObj 1 [(''tags'', JArr 2 [JStr ''a'', JStr ''b''])])
       (JObj 3 [(''tags'', JArr 4 [JStr ''a'', JStr ''b''])])"

text \<open>The same post with its tag assigned as a bare id, and as an entity that holds only the id; the snapshot holds the same tag.\<close>

definition scalarSubject :: subject where
  "scalarSubject =
     freshSubject [] [tagRelation]
       (JObj 1 [(''tag'', JNum 2)])
       (JObj 3 [(''tag'', JObj 4 [(''id'', JNum 2)])])"

definition entitySubject :: subject where
  "entitySubject =
     freshSubject [] [tagRelation]
       (JObj 1 [(''tag'', JObj 5 [(''id'', JNum 2)])])
       (JObj 3 [(''tag'', JObj 4 [(''id'', JNum 2)])])"

section \<open>The normalisation in the words of the specification\<close>

text \<open>
  The normalisation as the specification words it: the same cases as
  \<open>normalizeValues\<close>, with the delimited-array case taken on the column type that the
  drivers give to such a column, \<^verbatim>\<open>"simple-array"\<close>.
\<close>

definition normalizeValuesSpec :: "helpers \<Rightarrow> columnType \<Rightarrow> jsval \<Rightarrow> jsval \<Rightarrow> jsval \<times> jsval" where
  "normalizeValuesSpec h ty entityValue databaseValue =
     (if entityValue \<noteq> Null \<and> entityValue \<noteq> Undefined then
        if ty = TypeName ''date'' then
          (mixedDateToDateString h entityValue, databaseValue)
        else if ty = TypeName ''time'' then
          (mixedDateToTimeString h entityValue, databaseValue)
        else if ty = TypeName ''datetime'' \<or> ty = TypeConstructor ''Date'' then
          (mixedDateToUtcDatetimeString h entityValue, mixedDateToUtcDatetimeString h databaseValue)
        else if ty = TypeName ''json'' \<or> ty = TypeName ''jsonb'' then
          (jsonStringify h entityValue,
           if databaseValue \<noteq> Null \<and> databaseValue \<noteq> Undefined
           then jsonStringify h databaseValue else databaseValue)
        else if ty = TypeName ''simple-array'' then
          (simpleArrayToString h entityValue, simpleArrayToString h databaseValue)
        else (entityValue, databaseValue)
      else (entityValue, databaseValue))"

section \<open>Notions used to state the properties of the execution\<close>


text \<open>
  The error of the first call of the \<^verbatim>\<open>try\<close> block that is rejected, in program order:
  the start of the transaction, the broadcast before the removal, the query, the
  broadcast after the removal, the commit.
\<close>

definition firstError :: "expressionMap \<Rightarrow> queryRunner \<Rightarrow> error option" where
  "firstError em qr =
     (if useTransaction em \<and> \<not> isTransactionActive qr \<and> startTransaction qr \<noteq> None
      then startTransaction qr
      else (case listenersCalled em of
              Inl e \<Rightarrow> Some e
            | Inr called \<Rightarrow>
                if called \<and> broadcastBeforeRemoveEvent qr \<noteq> None then broadcastBeforeRemoveEvent qr
                else (case query qr of
                        Inl e \<Rightarrow> Some e
                      | Inr raw \<Rightarrow>
                          if called \<and> broadcastAfterRemoveEvent qr \<noteq> None
                          then broadcastAfterRemoveEvent qr
                          else if useTransaction em \<and> \<not> isTransactionActive qr
                          then commitTransaction qr else None)))"









section \<open>The passes as folds: what they keep and what they add\<close>

lemma diffColumn_frame:
  "entity (diffColumn h s c) = entity s"
  "databaseEntity (diffColumn h s c) = databaseEntity s"
  "metadata (diffColumn h s c) = metadata s"
  "mustBeInserted (diffColumn h s c) = mustBeInserted s"
  "diffRelations (diffColumn h s c) = diffRelations s"
  by (simp_all add: diffColumn_def Let_def)

lemma columnChanged_cong:
  "entity s' = entity s \<Longrightarrow> databaseEntity s' = databaseEntity s \<Longrightarrow>
   columnChanged h s' c = columnChanged h s c"
  by (simp add: columnChanged_def unchangedAgainstDatabase_def split: option.splits)

lemma diffColumn_eq:
  "diffColumn h s c =
     (if columnChanged h s c
      then s\<lparr>diffColumns := diffColumns s @ [c],
             changeMaps := upsertColumn (changeMaps s) c (Plain (columnGetEntityValue h c (entity s)))\<rparr>
      else s)"
  by (simp add: diffColumn_def columnChanged_def Let_def)

lemma foldl_diffColumn_frame:
  "entity (foldl (diffColumn h) s cs) = entity s"
  "databaseEntity (foldl (diffColumn h) s cs) = databaseEntity s"
  "metadata (foldl (diffColumn h) s cs) = metadata s"
  "mustBeInserted (foldl (diffColumn h) s cs) = mustBeInserted s"
  "diffRelations (foldl (diffColumn h) s cs) = diffRelations s"
  by (induction cs arbitrary: s) (simp_all add: diffColumn_frame)

lemma foldl_diffColumn_diffColumns:
  "diffColumns (foldl (diffColumn h) s cs) = diffColumns s @ filter (columnChanged h s) cs"
proof (induction cs arbitrary: s)
  case Nil
  show ?case by simp
next
  case (Cons c cs)
  have cong: "columnChanged h (diffColumn h s c) = columnChanged h s"
    by (rule ext, rule columnChanged_cong) (simp_all add: diffColumn_frame)
  have step: "diffColumns (diffColumn h s c) = diffColumns s @ (if columnChanged h s c then [c] else [])"
    by (simp add: diffColumn_eq)
  show ?case
    by (simp add: Cons.IH cong step)
qed

lemma diffRelation_frame:
  "entity (diffRelation h all s r) = entity s"
  "databaseEntity (diffRelation h all s r) = databaseEntity s"
  "metadata (diffRelation h all s r) = metadata s"
  "mustBeInserted (diffRelation h all s r) = mustBeInserted s"
  "diffColumns (diffRelation h all s r) = diffColumns s"
  by (simp_all add: diffRelation_def changeRelation_def Let_def)

lemma relationChanged_cong:
  "entity s' = entity s \<Longrightarrow> databaseEntity s' = databaseEntity s \<Longrightarrow>
   relationChanged h s' r = relationChanged h s r"
  by (simp add: relationChanged_def areRelatedIdsEqual_def)

lemma diffRelation_eq:
  "diffRelation h all s r =
     (if relationChanged h s r
      then s\<lparr>diffRelations := (if truthy (databaseEntity s) then diffRelations s @ [r] else diffRelations s),
             changeMaps := upsertRelation (changeMaps s) r (relationValue h all s r)\<rparr>
      else s)"
  by (simp add: diffRelation_def relationChanged_def changeRelation_def relationValue_def Let_def)

lemma foldl_diffRelation_frame:
  "entity (foldl (diffRelation h all) s rs) = entity s"
  "databaseEntity (foldl (diffRelation h all) s rs) = databaseEntity s"
  "metadata (foldl (diffRelation h all) s rs) = metadata s"
  "mustBeInserted (foldl (diffRelation h all) s rs) = mustBeInserted s"
  "diffColumns (foldl (diffRelation h all) s rs) = diffColumns s"
  by (induction rs arbitrary: s) (simp_all add: diffRelation_frame)

lemma foldl_diffRelation_diffRelations:
  "diffRelations (foldl (diffRelation h all) s rs) =
     diffRelations s @ filter (\<lambda>r. truthy (databaseEntity s) \<and> relationChanged h s r) rs"
proof (induction rs arbitrary: s)
  case Nil
  show ?case by simp
next
  case (Cons r rs)
  have cong: "relationChanged h (diffRelation h all s r) = relationChanged h s"
    by (rule ext, rule relationChanged_cong) (simp_all add: diffRelation_frame)
  have step: "diffRelations (diffRelation h all s r) =
      diffRelations s @ (if truthy (databaseEntity s) \<and> relationChanged h s r then [r] else [])"
    by (simp add: diffRelation_eq)
  show ?case
    by (simp add: Cons.IH cong diffRelation_frame step)
qed

section \<open>The upserts of the change maps\<close>

lemma upsertColumn_other:
  "c' \<noteq> c \<Longrightarrow> filter (\<lambda>m. cmColumn m = Some c) (upsertColumn ms c' v) = filter (\<lambda>m. cmColumn m = Some c) ms"
  by (induction ms) auto

lemma upsertColumn_same:
  "filter (\<lambda>m. cmColumn m = Some c) (upsertColumn ms c v) =
     (case filter (\<lambda>m. cmColumn m = Some c) ms of
        [] \<Rightarrow> [\<lparr>cmColumn = Some c, cmRelation = None, cmValue = v\<rparr>]
      | m # rest \<Rightarrow> m\<lparr>cmValue := v\<rparr> # rest)"
  by (induction ms) auto

lemma upsertColumn_idem:
  "upsertColumn (upsertColumn ms c v) c v = upsertColumn ms c v"
  by (induction ms) auto

lemma upsertColumn_member:
  "\<exists>m \<in> set (upsertColumn ms c v). cmColumn m = Some c \<and> cmValue m = v"
  by (induction ms) auto

lemma upsertRelation_other:
  "r' \<noteq> r \<Longrightarrow> filter (\<lambda>m. cmRelation m = Some r) (upsertRelation ms r' v) = filter (\<lambda>m. cmRelation m = Some r) ms"
  by (induction ms) auto

lemma upsertRelation_same:
  "filter (\<lambda>m. cmRelation m = Some r) (upsertRelation ms r v) =
     (case filter (\<lambda>m. cmRelation m = Some r) ms of
        [] \<Rightarrow> [\<lparr>cmColumn = None, cmRelation = Some r, cmValue = v\<rparr>]
      | m # rest \<Rightarrow> m\<lparr>cmValue := v\<rparr> # rest)"
  by (induction ms) auto

lemma upsertRelation_idem:
  "upsertRelation (upsertRelation ms r v) r v = upsertRelation ms r v"
  by (induction ms) auto

lemma upsertRelation_member:
  "\<exists>m \<in> set (upsertRelation ms r v). cmRelation m = Some r \<and> cmValue m = v"
  by (induction ms) auto

lemma columnEntries_upsert_cong:
  "columnEntries c ms = columnEntries c ms' \<Longrightarrow>
   columnEntries c (upsertColumn ms c v) = columnEntries c (upsertColumn ms' c v)"
  by (simp add: columnEntries_def upsertColumn_same)

lemma relationEntries_upsert_cong:
  "relationEntries r ms = relationEntries r ms' \<Longrightarrow>
   relationEntries r (upsertRelation ms r v) = relationEntries r (upsertRelation ms' r v)"
  by (simp add: relationEntries_def upsertRelation_same)

lemma foldl_diffColumn_entries:
  "columnEntries c (changeMaps (foldl (diffColumn h) s cs)) =
     (if c \<in> set cs \<and> columnChanged h s c
      then columnEntries c (upsertColumn (changeMaps s) c (Plain (columnGetEntityValue h c (entity s))))
      else columnEntries c (changeMaps s))"
proof (induction cs arbitrary: s)
  case Nil
  show ?case by simp
next
  case (Cons c' cs)
  let ?s' = "diffColumn h s c'"
  have cong: "columnChanged h ?s' c = columnChanged h s c"
    by (rule columnChanged_cong) (simp_all add: diffColumn_frame)
  have ent: "entity ?s' = entity s"
    by (simp add: diffColumn_frame)
  have IH: "columnEntries c (changeMaps (foldl (diffColumn h) ?s' cs)) =
     (if c \<in> set cs \<and> columnChanged h s c
      then columnEntries c (upsertColumn (changeMaps ?s') c (Plain (columnGetEntityValue h c (entity s))))
      else columnEntries c (changeMaps ?s'))"
    using Cons.IH [of ?s'] by (simp only: cong ent)
  show ?case
  proof (cases "c' = c")
    case True
    show ?thesis
    proof (cases "columnChanged h s c")
      case changed: True
      have "changeMaps ?s' = upsertColumn (changeMaps s) c (Plain (columnGetEntityValue h c (entity s)))"
        using True changed by (simp add: diffColumn_eq)
      then show ?thesis
        using True changed IH by (simp add: upsertColumn_idem)
    next
      case False
      then have "?s' = s" using True by (simp add: diffColumn_eq)
      then show ?thesis using False IH by simp
    qed
  next
    case False
    have same: "columnEntries c (changeMaps ?s') = columnEntries c (changeMaps s)"
      using False by (simp add: diffColumn_eq columnEntries_def upsertColumn_other)
    have "columnEntries c (upsertColumn (changeMaps ?s') c v) = columnEntries c (upsertColumn (changeMaps s) c v)" for v
      by (rule columnEntries_upsert_cong) (rule same)
    then show ?thesis
      using False IH same by auto
  qed
qed

lemma relationValue_cong:
  "entity s' = entity s \<Longrightarrow> relationValue h all s' r = relationValue h all s r"
  by (simp add: relationValue_def split: option.splits)

lemma foldl_diffRelation_entries:
  "relationEntries r (changeMaps (foldl (diffRelation h all) s rs)) =
     (if r \<in> set rs \<and> relationChanged h s r
      then relationEntries r (upsertRelation (changeMaps s) r (relationValue h all s r))
      else relationEntries r (changeMaps s))"
proof (induction rs arbitrary: s)
  case Nil
  show ?case by simp
next
  case (Cons r' rs)
  let ?s' = "diffRelation h all s r'"
  have cong: "relationChanged h ?s' r = relationChanged h s r"
    by (rule relationChanged_cong) (simp_all add: diffRelation_frame)
  have val: "relationValue h all ?s' r = relationValue h all s r"
    by (rule relationValue_cong) (simp add: diffRelation_frame)
  have IH: "relationEntries r (changeMaps (foldl (diffRelation h all) ?s' rs)) =
     (if r \<in> set rs \<and> relationChanged h s r
      then relationEntries r (upsertRelation (changeMaps ?s') r (relationValue h all s r))
      else relationEntries r (changeMaps ?s'))"
    using Cons.IH [of ?s'] by (simp only: cong val)
  show ?case
  proof (cases "r' = r")
    case True
    show ?thesis
    proof (cases "relationChanged h s r")
      case changed: True
      have "changeMaps ?s' = upsertRelation (changeMaps s) r (relationValue h all s r)"
        using True changed by (simp add: diffRelation_eq)
      then show ?thesis
        using True changed IH by (simp add: upsertRelation_idem)
    next
      case False
      then have "?s' = s" using True by (simp add: diffRelation_eq)
      then show ?thesis using False IH by simp
    qed
  next
    case False
    have same: "relationEntries r (changeMaps ?s') = relationEntries r (changeMaps s)"
      using False by (simp add: diffRelation_eq relationEntries_def upsertRelation_other)
    have "relationEntries r (upsertRelation (changeMaps ?s') r v) = relationEntries r (upsertRelation (changeMaps s) r v)" for v
      by (rule relationEntries_upsert_cong) (rule same)
    then show ?thesis
      using False IH same by auto
  qed
qed

section \<open>The rounds of compute\<close>

lemma findValueSubject_cong:
  "map signature xs = map signature ys \<Longrightarrow> findValueSubject xs v n = findValueSubject ys v n"
proof (induction xs arbitrary: ys n)
  case Nil
  then show ?case by simp
next
  case (Cons x xs)
  then obtain y ys' where ys: "ys = y # ys'" and xy: "signature x = signature y"
    and rest: "map signature xs = map signature ys'"
    by (cases ys) auto
  show ?case
    using xy Cons.IH [OF rest] by (simp add: ys signature_def)
qed

lemma changeRelation_cong:
  assumes "map signature xs = map signature ys"
  shows "changeRelation xs s r v = changeRelation ys s r v"
proof -
  have "findValueSubject xs v 0 = findValueSubject ys v 0"
    by (rule findValueSubject_cong) (rule assms)
  then show ?thesis by (simp add: changeRelation_def)
qed

lemma diffRelation_cong:
  assumes "map signature xs = map signature ys"
  shows "diffRelation h xs s r = diffRelation h ys s r"
proof -
  have "changeRelation xs = changeRelation ys"
    by (intro ext) (rule changeRelation_cong [OF assms])
  then show ?thesis by (simp add: diffRelation_def Let_def)
qed

lemma computeDiffRelationalColumns_cong:
  assumes "map signature xs = map signature ys"
  shows "computeDiffRelationalColumns h xs s = computeDiffRelationalColumns h ys s"
proof -
  have "diffRelation h xs = diffRelation h ys"
    by (intro ext) (rule diffRelation_cong [OF assms])
  then show ?thesis by (simp add: computeDiffRelationalColumns_def)
qed

lemma signature_computeDiffColumns: "signature (computeDiffColumns h s) = signature s"
  by (simp add: signature_def computeDiffColumns_def foldl_diffColumn_frame)

lemma signature_computeDiffRelationalColumns:
  "signature (computeDiffRelationalColumns h all s) = signature s"
  by (simp add: signature_def computeDiffRelationalColumns_def foldl_diffRelation_frame)

lemma length_computeAt: "length (computeAt h ss i) = length ss"
  by (simp add: computeAt_def Let_def)

lemma computeAt_other: "j \<noteq> i \<Longrightarrow> computeAt h ss i ! j = ss ! j"
  by (simp add: computeAt_def Let_def)

lemma computeAt_same:
  "i < length ss \<Longrightarrow>
   computeAt h ss i ! i =
     computeDiffRelationalColumns h (ss[i := computeDiffColumns h (ss ! i)]) (computeDiffColumns h (ss ! i))"
  by (simp add: computeAt_def Let_def)

lemma signature_update:
  assumes "signature s' = signature (ss ! i)"
  shows "map signature (ss[i := s']) = map signature ss"
proof (cases "i < length ss")
  case True
  have "(map signature ss)[i := map signature ss ! i] = map signature ss"
    by (rule list_update_id)
  then show ?thesis using True assms by (simp add: map_update)
next
  case False
  then have "length ss \<le> i" by simp
  then have "ss[i := s'] = ss" by (rule list_update_beyond)
  then show ?thesis by simp
qed

lemma signature_computeAt: "map signature (computeAt h ss i) = map signature ss"
proof -
  let ?ss1 = "ss[i := computeDiffColumns h (ss ! i)]"
  have one: "map signature ?ss1 = map signature ss"
    by (rule signature_update) (rule signature_computeDiffColumns)
  have "signature (computeDiffRelationalColumns h ?ss1 (?ss1 ! i)) = signature (?ss1 ! i)"
    by (rule signature_computeDiffRelationalColumns)
  then have "map signature (?ss1[i := computeDiffRelationalColumns h ?ss1 (?ss1 ! i)]) = map signature ?ss1"
    by (rule signature_update)
  with one show ?thesis by (simp add: computeAt_def Let_def)
qed

lemma rounds:
  "n \<le> length ss \<Longrightarrow>
   length (foldl (computeAt h) ss [0..<n]) = length ss \<and>
   map signature (foldl (computeAt h) ss [0..<n]) = map signature ss \<and>
   (\<forall>j < length ss.
      foldl (computeAt h) ss [0..<n] ! j =
        (if j < n then computeDiffRelationalColumns h ss (computeDiffColumns h (ss ! j)) else ss ! j))"
proof (induction n)
  case 0
  show ?case by simp
next
  case (Suc n)
  let ?pre = "foldl (computeAt h) ss [0..<n]"
  from Suc have len: "length ?pre = length ss" and sg: "map signature ?pre = map signature ss"
    and nth: "\<And>j. j < length ss \<Longrightarrow> ?pre ! j =
        (if j < n then computeDiffRelationalColumns h ss (computeDiffColumns h (ss ! j)) else ss ! j)"
    by simp_all
  have unfold: "foldl (computeAt h) ss [0..<Suc n] = computeAt h ?pre n"
    by simp
  have n: "n < length ss" using Suc.prems by simp
  have pren: "?pre ! n = ss ! n" using nth [OF n] by simp
  have sg1: "map signature (?pre[n := computeDiffColumns h (ss ! n)]) = map signature ss"
    using signature_update [of "computeDiffColumns h (ss ! n)" ?pre n] pren sg
    by (simp add: signature_computeDiffColumns)
  have here: "computeAt h ?pre n ! n = computeDiffRelationalColumns h ss (computeDiffColumns h (ss ! n))"
    using n len pren computeAt_same [of n ?pre h]
    by (simp add: computeDiffRelationalColumns_cong [OF sg1])
  have "computeAt h ?pre n ! j =
        (if j < Suc n then computeDiffRelationalColumns h ss (computeDiffColumns h (ss ! j)) else ss ! j)"
    if "j < length ss" for j
  proof (cases "j = n")
    case True
    then show ?thesis using here by simp
  next
    case False
    then show ?thesis using nth [OF that] by (simp add: computeAt_other less_Suc_eq)
  qed
  then show ?case
    unfolding unfold by (simp add: length_computeAt len signature_computeAt sg)
qed

lemma length_compute: "length (compute h ss) = length ss"
  using rounds [of "length ss" ss h] by (simp add: compute_def)

lemma compute_nth:
  "i < length ss \<Longrightarrow>
   compute h ss ! i = computeDiffRelationalColumns h ss (computeDiffColumns h (ss ! i))"
  using rounds [of "length ss" ss h] by (simp add: compute_def)

section \<open>What a pass does to one column or relation\<close>

lemma count_list_filter:
  "count_list (filter P xs) x = (if P x then count_list xs x else 0)"
  by (induction xs) auto

lemma columnPass_diffColumns:
  "diffColumns (computeDiffColumns h s) =
     diffColumns s @ (if truthy (entity s) then filter (columnChanged h s) (columns (metadata s)) else [])"
  by (simp add: computeDiffColumns_def foldl_diffColumn_diffColumns)

lemma columnPass_entries:
  "columnEntries c (changeMaps (computeDiffColumns h s)) =
     (if truthy (entity s) \<and> c \<in> set (columns (metadata s)) \<and> columnChanged h s c
      then columnEntries c (upsertColumn (changeMaps s) c (Plain (columnGetEntityValue h c (entity s))))
      else columnEntries c (changeMaps s))"
  by (simp add: computeDiffColumns_def foldl_diffColumn_entries)

lemma columnPass_frame:
  "entity (computeDiffColumns h s) = entity s"
  "databaseEntity (computeDiffColumns h s) = databaseEntity s"
  "metadata (computeDiffColumns h s) = metadata s"
  "mustBeInserted (computeDiffColumns h s) = mustBeInserted s"
  "diffRelations (computeDiffColumns h s) = diffRelations s"
  by (simp_all add: computeDiffColumns_def foldl_diffColumn_frame)

lemma relationPass_diffRelations:
  "diffRelations (computeDiffRelationalColumns h all s) =
     diffRelations s @
       (if truthy (entity s) \<and> truthy (databaseEntity s)
        then filter (relationChanged h s) (relationsWithJoinColumns (metadata s)) else [])"
  by (simp add: computeDiffRelationalColumns_def foldl_diffRelation_diffRelations)

lemma relationPass_entries:
  "relationEntries r (changeMaps (computeDiffRelationalColumns h all s)) =
     (if truthy (entity s) \<and> r \<in> set (relationsWithJoinColumns (metadata s)) \<and> relationChanged h s r
      then relationEntries r (upsertRelation (changeMaps s) r (relationValue h all s r))
      else relationEntries r (changeMaps s))"
  by (simp add: computeDiffRelationalColumns_def foldl_diffRelation_entries)

lemma relationPass_frame:
  "entity (computeDiffRelationalColumns h all s) = entity s"
  "databaseEntity (computeDiffRelationalColumns h all s) = databaseEntity s"
  "metadata (computeDiffRelationalColumns h all s) = metadata s"
  "mustBeInserted (computeDiffRelationalColumns h all s) = mustBeInserted s"
  "diffColumns (computeDiffRelationalColumns h all s) = diffColumns s"
  by (simp_all add: computeDiffRelationalColumns_def foldl_diffRelation_frame)

lemma unchanged_column_untouched:
  assumes "\<not> columnChanged h s c"
  shows "count_list (diffColumns (computeDiffColumns h s)) c = count_list (diffColumns s) c"
    and "columnEntries c (changeMaps (computeDiffColumns h s)) = columnEntries c (changeMaps s)"
  using assms by (simp_all add: columnPass_diffColumns columnPass_entries count_list_filter)

lemma unchanged_relation_untouched:
  assumes "\<not> relationChanged h s r"
  shows "count_list (diffRelations (computeDiffRelationalColumns h all s)) r = count_list (diffRelations s) r"
    and "relationEntries r (changeMaps (computeDiffRelationalColumns h all s)) = relationEntries r (changeMaps s)"
  using assms by (simp_all add: relationPass_diffRelations relationPass_entries count_list_filter)

lemma columnEntries_member:
  "m \<in> set (columnEntries c ms) \<longleftrightarrow> m \<in> set ms \<and> cmColumn m = Some c"
  by (auto simp add: columnEntries_def)

lemma relationEntries_member:
  "m \<in> set (relationEntries r ms) \<longleftrightarrow> m \<in> set ms \<and> cmRelation m = Some r"
  by (auto simp add: relationEntries_def)

lemma upserted_column_present:
  assumes "columnEntries c ms' = columnEntries c (upsertColumn ms c v)"
  shows "\<exists>m \<in> set ms'. cmColumn m = Some c \<and> cmValue m = v"
proof -
  obtain m where "m \<in> set (upsertColumn ms c v)" "cmColumn m = Some c" "cmValue m = v"
    using upsertColumn_member [of ms c v] by blast
  then have "m \<in> set (columnEntries c ms')"
    by (simp add: assms columnEntries_member)
  then show ?thesis
    using \<open>cmValue m = v\<close> by (auto simp add: columnEntries_member)
qed

lemma upserted_relation_present:
  assumes "relationEntries r ms' = relationEntries r (upsertRelation ms r v)"
  shows "\<exists>m \<in> set ms'. cmRelation m = Some r \<and> cmValue m = v"
proof -
  obtain m where "m \<in> set (upsertRelation ms r v)" "cmRelation m = Some r" "cmValue m = v"
    using upsertRelation_member [of ms r v] by blast
  then have "m \<in> set (relationEntries r ms')"
    by (simp add: assms relationEntries_member)
  then show ?thesis
    using \<open>cmValue m = v\<close> by (auto simp add: relationEntries_member)
qed

lemma relationEntries_upsert:
  "relationEntries r (upsertRelation ms r v) =
     (case relationEntries r ms of
        [] \<Rightarrow> [\<lparr>cmColumn = None, cmRelation = Some r, cmValue = v\<rparr>]
      | m # rest \<Rightarrow> m\<lparr>cmValue := v\<rparr> # rest)"
  by (simp add: relationEntries_def upsertRelation_same)

lemma columnEntries_upsert:
  "columnEntries c (upsertColumn ms c v) =
     (case columnEntries c ms of
        [] \<Rightarrow> [\<lparr>cmColumn = Some c, cmRelation = None, cmValue = v\<rparr>]
      | m # rest \<Rightarrow> m\<lparr>cmValue := v\<rparr> # rest)"
  by (simp add: columnEntries_def upsertColumn_same)

lemmas example_defs =
  plainColumn_def tagRelation_def ownerRelation_def freshSubject_def exHelpers_def propertyOf_def

lemmas pass_defs =
  computeDiffColumns_def diffColumn_def unchangedAgainstDatabase_def normalizeValues_def
  computeDiffRelationalColumns_def diffRelation_def areRelatedIdsEqual_def changeRelation_def
  strictEq_def instanceofObject_def Let_def

section \<open>What one pass leaves to the other\<close>

lemma columnOnlyEntries_columnEntries:
  "columnOnlyEntries c ms = filter (\<lambda>m. cmRelation m = None) (columnEntries c ms)"
  by (simp add: columnOnlyEntries_def columnEntries_def conj_commute)

lemma columnOnlyEntries_upsertRelation:
  "columnOnlyEntries c (upsertRelation ms r v) = columnOnlyEntries c ms"
  by (induction ms) (auto simp add: columnOnlyEntries_def)

lemma columnTags_upsertRelation:
  "map tag (columnEntries c (upsertRelation ms r v)) = map tag (columnEntries c ms)"
  by (induction ms) (auto simp add: columnEntries_def tag_def)

lemma relationOnlyEntries_upsertColumn:
  "relationOnlyEntries r (upsertColumn ms c v) = relationOnlyEntries r ms"
  by (induction ms) (auto simp add: relationOnlyEntries_def)

lemma relationTags_upsertColumn:
  "map tag (relationEntries r (upsertColumn ms c v)) = map tag (relationEntries r ms)"
  by (induction ms) (auto simp add: relationEntries_def tag_def)

lemma relationPass_keeps_columnEntries:
  "columnOnlyEntries c (changeMaps (computeDiffRelationalColumns h all s)) =
     columnOnlyEntries c (changeMaps s) \<and>
   map tag (columnEntries c (changeMaps (computeDiffRelationalColumns h all s))) =
     map tag (columnEntries c (changeMaps s))"
proof -
  have "columnOnlyEntries c (changeMaps (foldl (diffRelation h all) s rs)) =
          columnOnlyEntries c (changeMaps s) \<and>
        map tag (columnEntries c (changeMaps (foldl (diffRelation h all) s rs))) =
          map tag (columnEntries c (changeMaps s))" for rs
  proof (induction rs arbitrary: s)
    case Nil
    show ?case by simp
  next
    case (Cons r rs)
    have "columnOnlyEntries c (changeMaps (diffRelation h all s r)) = columnOnlyEntries c (changeMaps s) \<and>
          map tag (columnEntries c (changeMaps (diffRelation h all s r))) =
            map tag (columnEntries c (changeMaps s))"
      by (simp add: diffRelation_eq columnOnlyEntries_upsertRelation columnTags_upsertRelation)
    with Cons.IH [of "diffRelation h all s r"] show ?case by simp
  qed
  then show ?thesis by (simp add: computeDiffRelationalColumns_def)
qed

lemma columnPass_keeps_relationEntries:
  "relationOnlyEntries r (changeMaps (computeDiffColumns h s)) =
     relationOnlyEntries r (changeMaps s) \<and>
   map tag (relationEntries r (changeMaps (computeDiffColumns h s))) =
     map tag (relationEntries r (changeMaps s))"
proof -
  have "relationOnlyEntries r (changeMaps (foldl (diffColumn h) s cs)) =
          relationOnlyEntries r (changeMaps s) \<and>
        map tag (relationEntries r (changeMaps (foldl (diffColumn h) s cs))) =
          map tag (relationEntries r (changeMaps s))" for cs
  proof (induction cs arbitrary: s)
    case Nil
    show ?case by simp
  next
    case (Cons c cs)
    have "relationOnlyEntries r (changeMaps (diffColumn h s c)) = relationOnlyEntries r (changeMaps s) \<and>
          map tag (relationEntries r (changeMaps (diffColumn h s c))) =
            map tag (relationEntries r (changeMaps s))"
      by (simp add: diffColumn_eq relationOnlyEntries_upsertColumn relationTags_upsertColumn)
    with Cons.IH [of "diffColumn h s c"] show ?case by simp
  qed
  then show ?thesis by (simp add: computeDiffColumns_def)
qed

lemma relationOnlyEntries_relationEntries:
  "relationOnlyEntries r ms = filter (\<lambda>m. cmColumn m = None) (relationEntries r ms)"
  by (simp add: relationOnlyEntries_def relationEntries_def conj_commute)

section \<open>The subject found for a related entity\<close>

lemma findValueSubject_first:
  "j < length xs \<Longrightarrow> mustBeInserted (xs ! j) \<and> strictEq (entity (xs ! j)) v \<Longrightarrow>
   (\<forall>k<j. \<not> (mustBeInserted (xs ! k) \<and> strictEq (entity (xs ! k)) v)) \<Longrightarrow>
   findValueSubject xs v n = Some (n + j)"
proof (induction xs arbitrary: j n)
  case Nil
  then show ?case by simp
next
  case (Cons x xs)
  show ?case
  proof (cases j)
    case 0
    then show ?thesis using Cons.prems by simp
  next
    case (Suc j')
    have head: "\<not> (mustBeInserted x \<and> strictEq (entity x) v)"
      using Cons.prems(3) Suc by auto
    have rest: "\<forall>k<j'. \<not> (mustBeInserted (xs ! k) \<and> strictEq (entity (xs ! k)) v)"
      using Cons.prems(3) Suc by auto
    have "findValueSubject xs v (Suc n) = Some (Suc n + j')"
      using Cons.prems(1,2) Suc rest by (intro Cons.IH) simp_all
    then show ?thesis using head Suc by simp
  qed
qed

section \<open>The invariant of the change maps\<close>

lemma tags_upsertColumn:
  "map tag (upsertColumn ms c v) =
     (if \<exists>m \<in> set ms. cmColumn m = Some c then map tag ms else map tag ms @ [(Some c, None)])"
  by (induction ms) (auto simp add: tag_def)

lemma tags_upsertRelation:
  "map tag (upsertRelation ms r v) =
     (if \<exists>m \<in> set ms. cmRelation m = Some r then map tag ms else map tag ms @ [(None, Some r)])"
  by (induction ms) (auto simp add: tag_def)

lemma wellTagged_upsertColumn:
  "list_all wellTagged ms \<Longrightarrow> list_all wellTagged (upsertColumn ms c v)"
  by (induction ms) (auto simp add: wellTagged_def)

lemma wellTagged_upsertRelation:
  "list_all wellTagged ms \<Longrightarrow> list_all wellTagged (upsertRelation ms r v)"
  by (induction ms) (auto simp add: wellTagged_def)

lemma invariant_upsertColumn:
  assumes "changeMapsInvariant ms"
  shows "changeMapsInvariant (upsertColumn ms c v)"
proof -
  have "(Some c, None) \<notin> set (map tag ms)" if "\<not> (\<exists>m \<in> set ms. cmColumn m = Some c)"
    using that by (auto simp add: tag_def)
  then show ?thesis
    using assms by (auto simp add: changeMapsInvariant_def tags_upsertColumn wellTagged_upsertColumn)
qed

lemma invariant_upsertRelation:
  assumes "changeMapsInvariant ms"
  shows "changeMapsInvariant (upsertRelation ms r v)"
proof -
  have "(None, Some r) \<notin> set (map tag ms)" if "\<not> (\<exists>m \<in> set ms. cmRelation m = Some r)"
    using that by (auto simp add: tag_def)
  then show ?thesis
    using assms by (auto simp add: changeMapsInvariant_def tags_upsertRelation wellTagged_upsertRelation)
qed

lemma invariant_diffColumn:
  "changeMapsInvariant (changeMaps s) \<Longrightarrow> changeMapsInvariant (changeMaps (diffColumn h s c))"
  by (simp add: diffColumn_eq invariant_upsertColumn)

lemma invariant_diffRelation:
  "changeMapsInvariant (changeMaps s) \<Longrightarrow> changeMapsInvariant (changeMaps (diffRelation h all s r))"
  by (simp add: diffRelation_eq invariant_upsertRelation)

lemma invariant_columnPass:
  "changeMapsInvariant (changeMaps s) \<Longrightarrow> changeMapsInvariant (changeMaps (computeDiffColumns h s))"
proof -
  have "changeMapsInvariant (changeMaps s) \<Longrightarrow> changeMapsInvariant (changeMaps (foldl (diffColumn h) s cs))" for cs
    by (induction cs arbitrary: s) (simp_all add: invariant_diffColumn)
  then show "changeMapsInvariant (changeMaps s) \<Longrightarrow> changeMapsInvariant (changeMaps (computeDiffColumns h s))"
    by (simp add: computeDiffColumns_def)
qed

lemma invariant_relationPass:
  "changeMapsInvariant (changeMaps s) \<Longrightarrow>
   changeMapsInvariant (changeMaps (computeDiffRelationalColumns h all s))"
proof -
  have "changeMapsInvariant (changeMaps s) \<Longrightarrow> changeMapsInvariant (changeMaps (foldl (diffRelation h all) s rs))" for rs
    by (induction rs arbitrary: s) (simp_all add: invariant_diffRelation)
  then show "changeMapsInvariant (changeMaps s) \<Longrightarrow>
      changeMapsInvariant (changeMaps (computeDiffRelationalColumns h all s))"
    by (simp add: computeDiffRelationalColumns_def)
qed

lemma distinct_constant:
  "distinct xs \<Longrightarrow> (\<forall>x \<in> set xs. x = a) \<Longrightarrow> length xs \<le> 1"
  by (cases xs; cases "tl xs") auto

lemma invariant_columnEntries:
  assumes "changeMapsInvariant ms"
  shows "length (columnEntries c ms) \<le> 1"
proof -
  have d: "distinct (map tag (columnEntries c ms))"
    using assms by (simp add: changeMapsInvariant_def columnEntries_def distinct_map_filter)
  have "\<forall>x \<in> set (map tag (columnEntries c ms)). x = (Some c, None)"
    using assms by (auto simp add: changeMapsInvariant_def columnEntries_def tag_def wellTagged_def list_all_iff)
  from distinct_constant [OF d this] show ?thesis by simp
qed

lemma invariant_relationEntries:
  assumes "changeMapsInvariant ms"
  shows "length (relationEntries r ms) \<le> 1"
proof -
  have d: "distinct (map tag (relationEntries r ms))"
    using assms by (simp add: changeMapsInvariant_def relationEntries_def distinct_map_filter)
  have "\<forall>x \<in> set (map tag (relationEntries r ms)). x = (None, Some r)"
    using assms by (auto simp add: changeMapsInvariant_def relationEntries_def tag_def wellTagged_def list_all_iff)
  from distinct_constant [OF d this] show ?thesis by simp
qed

section \<open>The normalisation of the code and of the specification\<close>

lemma normalizeValues_agree:
  "ty \<noteq> TypeName ''simple-array'' \<Longrightarrow> ty \<noteq> TypeName ''sample-array'' \<Longrightarrow>
   normalizeValues h ty entityValue databaseValue = normalizeValuesSpec h ty entityValue databaseValue"
  by (simp add: normalizeValues_def normalizeValuesSpec_def)

lemma equal_after_normalization_is_unchanged:
  assumes "relationMetadata c = None"
    and "normalizeValues h (columnType c) v (columnGetEntityValue h c (databaseEntity s)) = (a, b)"
    and "strictEq a b"
  shows "unchangedAgainstDatabase h s c v"
  using assms by (simp add: unchangedAgainstDatabase_def)

section \<open>The comparison of related ids\<close>

lemma bare_id_reaches_compareIds_unreduced:
  "\<not> instanceofObject x \<Longrightarrow>
   areRelatedIdsEqual h s r x = compareIds h x (relationGetEntityValue h r (databaseEntity s))"
  by (simp add: areRelatedIdsEqual_def)

lemma related_entity_is_reduced:
  "instanceofObject x \<Longrightarrow>
   areRelatedIdsEqual h s r x =
     compareIds h (getRelationIdMap h r x) (relationGetEntityValue h r (databaseEntity s))"
  by (auto simp add: areRelatedIdsEqual_def instanceofObject_def)

section \<open>The calls made by execute\<close>

lemma listenersCalled_cases [case_names err on off]:
  obtains e where "listenersCalled em = Inl e"
  | "listenersCalled em = Inr True" | "listenersCalled em = Inr False"
  by (cases "listenersCalled em") auto

lemmas step_defs =
  tryStatement_def finallyBlock_def catchBlock_def tryBlock_def startStep_def broadcastStep_def
  commitStep_def






lemma tryBlock_result:
  "snd (tryBlock em qr) =
     (case firstError em qr of
        Some e \<Rightarrow> Inl e
      | None \<Rightarrow> (case query qr of Inl e \<Rightarrow> Inl e | Inr raw \<Rightarrow> Inr (DeleteResult raw)))"
  by (cases em rule: listenersCalled_cases; cases "startTransaction qr";
      cases "broadcastBeforeRemoveEvent qr";
      cases "query qr"; cases "broadcastAfterRemoveEvent qr"; cases "commitTransaction qr";
      simp add: step_defs firstError_def)




lemma built_has_alias:
  "getQueryAndParameters b = Inr sql \<Longrightarrow> mainAlias (expressionMap b) \<noteq> None"
  by (auto simp add: getQueryAndParameters_def split: option.splits)



section \<open>Properties of the change computer\<close>

text \<open>
  Claim C10. A subject whose entity is absent is left as it is: both passes return at
  once, so \<^verbatim>\<open>compute\<close> changes neither its diff lists, nor its change maps, nor any
  other field of the subject.
\<close>

theorem compute_without_entity_is_noop:
  assumes "i < length ss" and "\<not> truthy (entity (ss ! i))"
  shows "computeDiffColumns h (ss ! i) = ss ! i \<and>
         computeDiffRelationalColumns h allSubjects (ss ! i) = ss ! i \<and>
         compute h ss ! i = ss ! i"
proof -
  have c: "computeDiffColumns h (ss ! i) = ss ! i"
    using assms(2) by (simp add: computeDiffColumns_def)
  have r: "computeDiffRelationalColumns h xs (ss ! i) = ss ! i" for xs
    using assms(2) by (simp add: computeDiffRelationalColumns_def)
  show ?thesis
    using c r compute_nth [OF assms(1), of h] by simp
qed

text \<open>
  The subject \<open>absentSubject\<close> has columns, a relation and a change map, and no entity.
\<close>

theorem compute_without_entity_is_noop_witness:
  "0 < length [absentSubject] \<and> \<not> truthy (entity ([absentSubject] ! 0)) \<and>
   computeDiffColumns exHelpers ([absentSubject] ! 0) = [absentSubject] ! 0 \<and>
   computeDiffRelationalColumns exHelpers [] ([absentSubject] ! 0) = [absentSubject] ! 0 \<and>
   compute exHelpers [absentSubject] ! 0 = [absentSubject] ! 0"
proof -
  have i: "0 < length [absentSubject]"
    by simp
  have e: "\<not> truthy (entity ([absentSubject] ! 0))"
    by (simp add: absentSubject_def freshSubject_def)
  from compute_without_entity_is_noop [OF i e, of exHelpers "[]"] i e
  show ?thesis by blast
qed




text \<open>
  Claim C4, as amended. A column or relation whose value on the entity is
  \<^verbatim>\<open>undefined\<close> is skipped by \<^verbatim>\<open>compute\<close>: no occurrence of it is added to the diff
  list, no change map with its tag is created or removed, and the change maps tagged
  with it alone are left as they are. On a subject with no snapshot, a considered column
  with a provided value, \<^verbatim>\<open>null\<close> included, is pushed to \<^verbatim>\<open>diffColumns\<close> and its
  change map is upserted with that value; a relation with a provided value has its
  change map upserted, and \<^verbatim>\<open>diffRelations\<close> is left as it is.
\<close>

theorem undefined_is_skipped_provided_is_recorded:
  assumes "i < length ss"
  shows
  "(columnGetEntityValue h c (entity (ss ! i)) = Undefined \<longrightarrow>
      count_list (diffColumns (compute h ss ! i)) c = count_list (diffColumns (ss ! i)) c \<and>
      map tag (columnEntries c (changeMaps (compute h ss ! i))) =
        map tag (columnEntries c (changeMaps (ss ! i))) \<and>
      columnOnlyEntries c (changeMaps (compute h ss ! i)) =
        columnOnlyEntries c (changeMaps (ss ! i))) \<and>
   (truthy (entity (ss ! i)) \<and> \<not> truthy (databaseEntity (ss ! i)) \<and>
    c' \<in> set (columns (metadata (ss ! i))) \<and>
    \<not> isVirtual c' \<and> \<not> isDiscriminator c' \<and> \<not> isUpdateDate c' \<and> \<not> isVersion c' \<and>
    \<not> isCreateDate c' \<and> columnGetEntityValue h c' (entity (ss ! i)) \<noteq> Undefined \<longrightarrow>
      c' \<in> set (diffColumns (compute h ss ! i)) \<and>
      (\<exists>m \<in> set (changeMaps (compute h ss ! i)). cmColumn m = Some c') \<and>
      columnOnlyEntries c' (changeMaps (compute h ss ! i)) =
        columnOnlyEntries c'
          (upsertColumn (changeMaps (ss ! i)) c' (Plain (columnGetEntityValue h c' (entity (ss ! i)))))) \<and>
   (relationGetEntityValue h r (entity (ss ! i)) = Undefined \<longrightarrow>
      count_list (diffRelations (compute h ss ! i)) r = count_list (diffRelations (ss ! i)) r \<and>
      map tag (relationEntries r (changeMaps (compute h ss ! i))) =
        map tag (relationEntries r (changeMaps (ss ! i))) \<and>
      relationOnlyEntries r (changeMaps (compute h ss ! i)) =
        relationOnlyEntries r (changeMaps (ss ! i))) \<and>
   (truthy (entity (ss ! i)) \<and> \<not> truthy (databaseEntity (ss ! i)) \<and>
    r' \<in> set (relationsWithJoinColumns (metadata (ss ! i))) \<and>
    relationGetEntityValue h r' (entity (ss ! i)) \<noteq> Undefined \<longrightarrow>
      diffRelations (compute h ss ! i) = diffRelations (ss ! i) \<and>
      (\<exists>m \<in> set (changeMaps (compute h ss ! i)).
         cmRelation m = Some r' \<and> cmValue m = relationValue h ss (ss ! i) r') \<and>
      map cmValue (take 1 (relationEntries r' (changeMaps (compute h ss ! i)))) =
        [relationValue h ss (ss ! i) r'])"
proof -
  let ?s = "ss ! i"
  let ?s1 = "computeDiffColumns h ?s"
  let ?t = "computeDiffRelationalColumns h ss ?s1"
  have t: "compute h ss ! i = ?t"
    by (rule compute_nth [OF assms])
  have ccong: "columnChanged h ?s1 x = columnChanged h ?s x" for x
    by (rule columnChanged_cong) (simp_all add: columnPass_frame)
  have rcong: "relationChanged h ?s1 x = relationChanged h ?s x" for x
    by (rule relationChanged_cong) (simp_all add: columnPass_frame)
  have vcong: "relationValue h ss ?s1 x = relationValue h ss ?s x" for x
    by (rule relationValue_cong) (simp add: columnPass_frame)
  have A: "count_list (diffColumns ?t) c = count_list (diffColumns ?s) c \<and>
      map tag (columnEntries c (changeMaps ?t)) = map tag (columnEntries c (changeMaps ?s)) \<and>
      columnOnlyEntries c (changeMaps ?t) = columnOnlyEntries c (changeMaps ?s)"
    if "columnGetEntityValue h c (entity ?s) = Undefined"
  proof -
    from that have no: "\<not> columnChanged h ?s c" by (simp add: columnChanged_def)
    have e: "columnEntries c (changeMaps ?s1) = columnEntries c (changeMaps ?s)"
      by (rule unchanged_column_untouched [OF no])
    have o: "columnOnlyEntries c (changeMaps ?s1) = columnOnlyEntries c (changeMaps ?s)"
      by (simp add: columnOnlyEntries_columnEntries e)
    show ?thesis
      using unchanged_column_untouched(1) [OF no] relationPass_keeps_columnEntries [of c h ss ?s1] e o
      by (simp add: relationPass_frame)
  qed
  have B: "c' \<in> set (diffColumns ?t) \<and>
      (\<exists>m \<in> set (changeMaps ?t). cmColumn m = Some c') \<and>
      columnOnlyEntries c' (changeMaps ?t) =
        columnOnlyEntries c' (upsertColumn (changeMaps ?s) c' (Plain (columnGetEntityValue h c' (entity ?s))))"
    if a: "truthy (entity ?s) \<and> \<not> truthy (databaseEntity ?s) \<and>
    c' \<in> set (columns (metadata ?s)) \<and>
    \<not> isVirtual c' \<and> \<not> isDiscriminator c' \<and> \<not> isUpdateDate c' \<and> \<not> isVersion c' \<and>
    \<not> isCreateDate c' \<and> columnGetEntityValue h c' (entity ?s) \<noteq> Undefined"
  proof -
    let ?v = "Plain (columnGetEntityValue h c' (entity ?s))"
    from a have yes: "columnChanged h ?s c'" by (simp add: columnChanged_def)
    have d: "c' \<in> set (diffColumns ?t)"
      using a yes by (simp add: relationPass_frame columnPass_diffColumns)
    have e: "columnEntries c' (changeMaps ?s1) = columnEntries c' (upsertColumn (changeMaps ?s) c' ?v)"
      using a yes by (simp add: columnPass_entries)
    have o: "columnOnlyEntries c' (changeMaps ?t) = columnOnlyEntries c' (upsertColumn (changeMaps ?s) c' ?v)"
      using relationPass_keeps_columnEntries [of c' h ss ?s1]
      by (simp add: columnOnlyEntries_columnEntries e)
    obtain m where "m \<in> set (changeMaps ?s1)" "cmColumn m = Some c'"
      using upserted_column_present [OF e] by blast
    then have "columnEntries c' (changeMaps ?s1) \<noteq> []"
      by (auto simp add: columnEntries_def filter_empty_conv)
    then have "map tag (columnEntries c' (changeMaps ?t)) \<noteq> []"
      using relationPass_keeps_columnEntries [of c' h ss ?s1] by simp
    then obtain m' where "m' \<in> set (columnEntries c' (changeMaps ?t))"
      by (cases "columnEntries c' (changeMaps ?t)") auto
    then have "\<exists>m \<in> set (changeMaps ?t). cmColumn m = Some c'"
      by (auto simp add: columnEntries_member)
    with d o show ?thesis by blast
  qed
  have C: "count_list (diffRelations ?t) r = count_list (diffRelations ?s) r \<and>
      map tag (relationEntries r (changeMaps ?t)) = map tag (relationEntries r (changeMaps ?s)) \<and>
      relationOnlyEntries r (changeMaps ?t) = relationOnlyEntries r (changeMaps ?s)"
    if "relationGetEntityValue h r (entity ?s) = Undefined"
  proof -
    from that have "\<not> relationChanged h ?s r" by (simp add: relationChanged_def)
    then have no: "\<not> relationChanged h ?s1 r" by (simp add: rcong)
    have e: "relationEntries r (changeMaps ?t) = relationEntries r (changeMaps ?s1)"
      by (rule unchanged_relation_untouched [OF no])
    have o: "relationOnlyEntries r (changeMaps ?t) = relationOnlyEntries r (changeMaps ?s1)"
      by (simp add: relationOnlyEntries_relationEntries e)
    show ?thesis
      using unchanged_relation_untouched(1) [OF no, of ss] columnPass_keeps_relationEntries [of r h ?s] e o
      by (simp add: columnPass_frame)
  qed
  have D: "diffRelations ?t = diffRelations ?s \<and>
      (\<exists>m \<in> set (changeMaps ?t). cmRelation m = Some r' \<and> cmValue m = relationValue h ss ?s r') \<and>
      map cmValue (take 1 (relationEntries r' (changeMaps ?t))) = [relationValue h ss ?s r']"
    if a: "truthy (entity ?s) \<and> \<not> truthy (databaseEntity ?s) \<and>
    r' \<in> set (relationsWithJoinColumns (metadata ?s)) \<and>
    relationGetEntityValue h r' (entity ?s) \<noteq> Undefined"
  proof -
    from a have "relationChanged h ?s r'" by (simp add: relationChanged_def)
    then have yes: "relationChanged h ?s1 r'" by (simp add: rcong)
    have d: "diffRelations ?t = diffRelations ?s"
      using a by (simp add: relationPass_diffRelations columnPass_frame)
    have e: "relationEntries r' (changeMaps ?t) =
               relationEntries r' (upsertRelation (changeMaps ?s1) r' (relationValue h ss ?s r'))"
      using a yes by (simp add: relationPass_entries columnPass_frame vcong)
    have first: "map cmValue (take 1 (relationEntries r' (changeMaps ?t))) = [relationValue h ss ?s r']"
      unfolding e relationEntries_upsert by (cases "relationEntries r' (changeMaps ?s1)") simp_all
    have "\<exists>m \<in> set (changeMaps ?t). cmRelation m = Some r' \<and> cmValue m = relationValue h ss ?s r'"
      by (rule upserted_relation_present [OF e])
    with d first show ?thesis by blast
  qed
  show ?thesis
    unfolding t using A B C D by blast
qed

text \<open>
  On \<open>draftSubject\<close> the title and the tag are not provided, the body and the owner
  are \<^verbatim>\<open>null\<close>.
\<close>

theorem undefined_is_skipped_provided_is_recorded_witness:
  "columnGetEntityValue exHelpers titleColumn (entity ([draftSubject] ! 0)) = Undefined \<and>
   columnGetEntityValue exHelpers bodyColumn (entity ([draftSubject] ! 0)) = Null \<and>
   relationGetEntityValue exHelpers tagRelation (entity ([draftSubject] ! 0)) = Undefined \<and>
   relationGetEntityValue exHelpers ownerRelation (entity ([draftSubject] ! 0)) = Null \<and>
   truthy (entity ([draftSubject] ! 0)) \<and> \<not> truthy (databaseEntity ([draftSubject] ! 0)) \<and>
   count_list (diffColumns (compute exHelpers [draftSubject] ! 0)) titleColumn = 0 \<and>
   columnOnlyEntries titleColumn (changeMaps (compute exHelpers [draftSubject] ! 0)) = [] \<and>
   bodyColumn \<in> set (diffColumns (compute exHelpers [draftSubject] ! 0)) \<and>
   columnOnlyEntries bodyColumn (changeMaps (compute exHelpers [draftSubject] ! 0)) =
     [\<lparr>cmColumn = Some bodyColumn, cmRelation = None, cmValue = Plain Null\<rparr>] \<and>
   relationOnlyEntries tagRelation (changeMaps (compute exHelpers [draftSubject] ! 0)) = [] \<and>
   diffRelations (compute exHelpers [draftSubject] ! 0) = [] \<and>
   map cmValue (take 1 (relationEntries ownerRelation
     (changeMaps (compute exHelpers [draftSubject] ! 0)))) = [Plain Null]"
proof -
  have i: "0 < length [draftSubject]" by simp
  note inst = undefined_is_skipped_provided_is_recorded
          [OF i, of exHelpers titleColumn bodyColumn tagRelation ownerRelation]
  have v1: "columnGetEntityValue exHelpers titleColumn (entity ([draftSubject] ! 0)) = Undefined"
    by (simp add: draftSubject_def example_defs titleColumn_def)
  have v2: "columnGetEntityValue exHelpers bodyColumn (entity ([draftSubject] ! 0)) = Null"
    by (simp add: draftSubject_def example_defs bodyColumn_def)
  have v3: "relationGetEntityValue exHelpers tagRelation (entity ([draftSubject] ! 0)) = Undefined"
    by (simp add: draftSubject_def example_defs)
  have v4: "relationGetEntityValue exHelpers ownerRelation (entity ([draftSubject] ! 0)) = Null"
    by (simp add: draftSubject_def example_defs)
  have fresh: "truthy (entity ([draftSubject] ! 0)) \<and> \<not> truthy (databaseEntity ([draftSubject] ! 0))"
    by (simp add: draftSubject_def freshSubject_def)
  have a2: "truthy (entity ([draftSubject] ! 0)) \<and> \<not> truthy (databaseEntity ([draftSubject] ! 0)) \<and>
    bodyColumn \<in> set (columns (metadata ([draftSubject] ! 0))) \<and>
    \<not> isVirtual bodyColumn \<and> \<not> isDiscriminator bodyColumn \<and> \<not> isUpdateDate bodyColumn \<and>
    \<not> isVersion bodyColumn \<and> \<not> isCreateDate bodyColumn \<and>
    columnGetEntityValue exHelpers bodyColumn (entity ([draftSubject] ! 0)) \<noteq> Undefined"
    using v2 fresh by (simp add: draftSubject_def freshSubject_def bodyColumn_def plainColumn_def)
  have a4: "truthy (entity ([draftSubject] ! 0)) \<and> \<not> truthy (databaseEntity ([draftSubject] ! 0)) \<and>
    ownerRelation \<in> set (relationsWithJoinColumns (metadata ([draftSubject] ! 0))) \<and>
    relationGetEntityValue exHelpers ownerRelation (entity ([draftSubject] ! 0)) \<noteq> Undefined"
    using v4 fresh by (simp add: draftSubject_def freshSubject_def)
  have c1: "count_list (diffColumns (compute exHelpers [draftSubject] ! 0)) titleColumn =
              count_list (diffColumns ([draftSubject] ! 0)) titleColumn \<and>
            columnOnlyEntries titleColumn (changeMaps (compute exHelpers [draftSubject] ! 0)) =
              columnOnlyEntries titleColumn (changeMaps ([draftSubject] ! 0))"
    using inst v1 by blast
  have c2: "bodyColumn \<in> set (diffColumns (compute exHelpers [draftSubject] ! 0)) \<and>
            columnOnlyEntries bodyColumn (changeMaps (compute exHelpers [draftSubject] ! 0)) =
              columnOnlyEntries bodyColumn (upsertColumn (changeMaps ([draftSubject] ! 0)) bodyColumn
                (Plain (columnGetEntityValue exHelpers bodyColumn (entity ([draftSubject] ! 0)))))"
    using inst a2 by blast
  have c3: "relationOnlyEntries tagRelation (changeMaps (compute exHelpers [draftSubject] ! 0)) =
              relationOnlyEntries tagRelation (changeMaps ([draftSubject] ! 0))"
    using inst v3 by blast
  have c4: "diffRelations (compute exHelpers [draftSubject] ! 0) = diffRelations ([draftSubject] ! 0) \<and>
            map cmValue (take 1 (relationEntries ownerRelation
              (changeMaps (compute exHelpers [draftSubject] ! 0)))) =
              [relationValue exHelpers [draftSubject] ([draftSubject] ! 0) ownerRelation]"
    using inst a4 by blast
  have empty: "changeMaps draftSubject = []" "diffColumns draftSubject = []"
    "diffRelations draftSubject = []"
    by (simp_all add: draftSubject_def freshSubject_def)
  have "findValueSubject [draftSubject] Null 0 = None"
    by (simp add: draftSubject_def freshSubject_def)
  then have val: "relationValue exHelpers [draftSubject] draftSubject ownerRelation = Plain Null"
    using v4 by (simp add: relationValue_def)
  have t1: "count_list (diffColumns (compute exHelpers [draftSubject] ! 0)) titleColumn = 0"
    and t2: "columnOnlyEntries titleColumn (changeMaps (compute exHelpers [draftSubject] ! 0)) = []"
    using c1 by (simp_all add: empty columnOnlyEntries_def)
  have t3: "columnOnlyEntries bodyColumn (changeMaps (compute exHelpers [draftSubject] ! 0)) =
     [\<lparr>cmColumn = Some bodyColumn, cmRelation = None, cmValue = Plain Null\<rparr>]"
    using c2 v2 by (simp add: empty columnOnlyEntries_def)
  have t4: "relationOnlyEntries tagRelation (changeMaps (compute exHelpers [draftSubject] ! 0)) = []"
    using c3 by (simp add: empty relationOnlyEntries_def)
  have t5: "diffRelations (compute exHelpers [draftSubject] ! 0) = []"
    and t6: "map cmValue (take 1 (relationEntries ownerRelation
              (changeMaps (compute exHelpers [draftSubject] ! 0)))) = [Plain Null]"
    using c4 by (simp_all add: empty val)
  show ?thesis
    using v1 v2 v3 v4 fresh t1 t2 c2 t3 t4 t5 t6 by blast
qed

text \<open>
  Claim C4 as stated fails for a relation: the owner of \<open>draftSubject\<close> is provided
  (\<^verbatim>\<open>null\<close>) and there is no snapshot; \<^verbatim>\<open>compute\<close> writes the change map of the
  relation and no entry of the diff list, where a column in the same state gets both.
\<close>

theorem provided_relation_gets_no_diff_entry:
  "relationsWithJoinColumns (metadata ([draftSubject] ! 0)) = [tagRelation, ownerRelation] \<and>
   relationGetEntityValue exHelpers ownerRelation (entity ([draftSubject] ! 0)) = Null \<and>
   truthy (entity ([draftSubject] ! 0)) \<and> databaseEntity ([draftSubject] ! 0) = Undefined \<and>
   diffRelations (compute exHelpers [draftSubject] ! 0) = [] \<and>
   changeMaps (compute exHelpers [draftSubject] ! 0) =
     [\<lparr>cmColumn = Some bodyColumn, cmRelation = None, cmValue = Plain Null\<rparr>,
      \<lparr>cmColumn = None, cmRelation = Some ownerRelation, cmValue = Plain Null\<rparr>]"
  by (simp add: compute_nth draftSubject_def example_defs titleColumn_def bodyColumn_def pass_defs)

text \<open>
  Claim C5. On a subject with a snapshot, a column backed by a relation whose value on
  the entity is neither \<^verbatim>\<open>null\<close> nor \<^verbatim>\<open>undefined\<close> is not compared: the callback
  leaves the subject as it is, and the column pass adds no occurrence of the column to
  \<^verbatim>\<open>diffColumns\<close> and leaves the change maps of the column as they are.
\<close>

theorem relation_backed_column_is_skipped:
  assumes "truthy (databaseEntity s)" and "relationMetadata c = Some rel"
    and "relationGetEntityValue h rel (entity s) \<noteq> Null"
    and "relationGetEntityValue h rel (entity s) \<noteq> Undefined"
  shows "diffColumn h s c = s \<and>
         count_list (diffColumns (computeDiffColumns h s)) c = count_list (diffColumns s) c \<and>
         columnEntries c (changeMaps (computeDiffColumns h s)) = columnEntries c (changeMaps s)"
proof -
  have "unchangedAgainstDatabase h s c v" for v
    using assms by (simp add: unchangedAgainstDatabase_def)
  then have no: "\<not> columnChanged h s c"
    using assms(1) by (simp add: columnChanged_def)
  show ?thesis
    using no unchanged_column_untouched [OF no] by (simp add: diffColumn_eq)
qed

text \<open>
  On \<open>linkedSubject\<close> the join column differs from the snapshot (5 against 4), and is
  skipped all the same because the relation is set.
\<close>

theorem relation_backed_column_is_skipped_witness:
  "truthy (databaseEntity linkedSubject) \<and> relationMetadata tagIdColumn = Some tagRelation \<and>
   relationGetEntityValue exHelpers tagRelation (entity linkedSubject) = JObj 2 [(''id'', JNum 7)] \<and>
   columnGetEntityValue exHelpers tagIdColumn (entity linkedSubject) = JNum 5 \<and>
   columnGetEntityValue exHelpers tagIdColumn (databaseEntity linkedSubject) = JNum 4 \<and>
   diffColumn exHelpers linkedSubject tagIdColumn = linkedSubject \<and>
   count_list (diffColumns (computeDiffColumns exHelpers linkedSubject)) tagIdColumn = 0 \<and>
   columnEntries tagIdColumn (changeMaps (computeDiffColumns exHelpers linkedSubject)) = []"
proof -
  have h1: "truthy (databaseEntity linkedSubject)"
    by (simp add: linkedSubject_def freshSubject_def)
  have h2: "relationMetadata tagIdColumn = Some tagRelation"
    by (simp add: tagIdColumn_def)
  have v: "relationGetEntityValue exHelpers tagRelation (entity linkedSubject) = JObj 2 [(''id'', JNum 7)]"
    by (simp add: linkedSubject_def example_defs tagIdColumn_def)
  have h3: "relationGetEntityValue exHelpers tagRelation (entity linkedSubject) \<noteq> Null"
    and h4: "relationGetEntityValue exHelpers tagRelation (entity linkedSubject) \<noteq> Undefined"
    by (simp_all add: v)
  have w: "columnGetEntityValue exHelpers tagIdColumn (entity linkedSubject) = JNum 5 \<and>
           columnGetEntityValue exHelpers tagIdColumn (databaseEntity linkedSubject) = JNum 4"
    by (simp add: linkedSubject_def example_defs tagIdColumn_def)
  have empty: "changeMaps linkedSubject = []" "diffColumns linkedSubject = []"
    by (simp_all add: linkedSubject_def freshSubject_def)
  from relation_backed_column_is_skipped [OF h1 h2 h3 h4]
  show ?thesis
    using h1 h2 v w by (simp add: empty columnEntries_def)
qed

text \<open>
  Claim C6. When a change of a relation is recorded and the related value is, by
  identity, the entity of a subject of the batch that must be inserted (the first such
  subject, at position \<open>j\<close>), the change map that \<^verbatim>\<open>find\<close> selects for the relation
  holds that subject, not the related entity.
\<close>

theorem pending_sibling_is_the_change_value:
  assumes "i < length ss" and "truthy (entity (ss ! i))"
    and "r \<in> set (relationsWithJoinColumns (metadata (ss ! i)))"
    and "relationGetEntityValue h r (entity (ss ! i)) = v" and "v \<noteq> Undefined"
    and "\<not> (truthy (databaseEntity (ss ! i)) \<and> areRelatedIdsEqual h (ss ! i) r v)"
    and "j < length ss" and "mustBeInserted (ss ! j)" and "strictEq (entity (ss ! j)) v"
    and "\<forall>k<j. \<not> (mustBeInserted (ss ! k) \<and> strictEq (entity (ss ! k)) v)"
  shows "map cmValue (take 1 (relationEntries r (changeMaps (compute h ss ! i)))) = [SubjectRef j] \<and>
         (\<exists>m \<in> set (changeMaps (compute h ss ! i)). cmRelation m = Some r \<and> cmValue m = SubjectRef j)"
proof -
  let ?s1 = "computeDiffColumns h (ss ! i)"
  let ?res = "computeDiffRelationalColumns h ss ?s1"
  have res: "compute h ss ! i = ?res"
    by (rule compute_nth [OF assms(1)])
  have changed: "relationChanged h ?s1 r"
    using assms(4,5,6) by (simp add: relationChanged_def areRelatedIdsEqual_def columnPass_frame)
  have "findValueSubject ss v 0 = Some (0 + j)"
    using assms(7,8,9,10) by (intro findValueSubject_first) simp_all
  then have val: "relationValue h ss ?s1 r = SubjectRef j"
    using assms(4) by (simp add: relationValue_def columnPass_frame)
  have e: "relationEntries r (changeMaps ?res) =
             relationEntries r (upsertRelation (changeMaps ?s1) r (SubjectRef j))"
    using assms(2,3) changed val by (simp add: relationPass_entries columnPass_frame)
  have first: "map cmValue (take 1 (relationEntries r (changeMaps ?res))) = [SubjectRef j]"
    unfolding e relationEntries_upsert by (cases "relationEntries r (changeMaps ?s1)") simp_all
  have "\<exists>m \<in> set (changeMaps ?res). cmRelation m = Some r \<and> cmValue m = SubjectRef j"
    by (rule upserted_relation_present [OF e])
  with first show ?thesis by (simp add: res)
qed

text \<open>
  A new post that refers to a new tag, both in the batch.
\<close>

theorem pending_sibling_is_the_change_value_witness:
  "(1::nat) < length [postSubject, newTagSubject] \<and>
   relationGetEntityValue exHelpers tagRelation (entity ([postSubject, newTagSubject] ! 0)) =
     entity ([postSubject, newTagSubject] ! 1) \<and>
   mustBeInserted ([postSubject, newTagSubject] ! 1) \<and>
   map cmValue (take 1 (relationEntries tagRelation
     (changeMaps (compute exHelpers [postSubject, newTagSubject] ! 0)))) = [SubjectRef 1]"
proof -
  let ?ss = "[postSubject, newTagSubject]"
  let ?v = "JObj 2 [(''name'', JStr ''x'')]"
  have h1: "0 < length ?ss" by simp
  have h2: "truthy (entity (?ss ! 0))"
    by (simp add: postSubject_def freshSubject_def)
  have h3: "tagRelation \<in> set (relationsWithJoinColumns (metadata (?ss ! 0)))"
    by (simp add: postSubject_def freshSubject_def)
  have h4: "relationGetEntityValue exHelpers tagRelation (entity (?ss ! 0)) = ?v"
    by (simp add: postSubject_def example_defs)
  have h5: "?v \<noteq> Undefined" by simp
  have h6: "\<not> (truthy (databaseEntity (?ss ! 0)) \<and> areRelatedIdsEqual exHelpers (?ss ! 0) tagRelation ?v)"
    by (simp add: postSubject_def freshSubject_def)
  have h7: "1 < length ?ss" by simp
  have h8: "mustBeInserted (?ss ! 1)"
    by (simp add: newTagSubject_def freshSubject_def)
  have e: "entity (?ss ! 1) = ?v"
    by (simp add: newTagSubject_def freshSubject_def)
  have h9: "strictEq (entity (?ss ! 1)) ?v"
    by (simp add: newTagSubject_def freshSubject_def strictEq_def)
  have "\<not> strictEq (entity (?ss ! 0)) ?v"
    by (simp add: postSubject_def freshSubject_def strictEq_def)
  then have h10: "\<forall>k<1. \<not> (mustBeInserted (?ss ! k) \<and> strictEq (entity (?ss ! k)) ?v)"
    by simp
  from pending_sibling_is_the_change_value [OF h1 h2 h3 h4 h5 h6 h7 h8 h9 h10]
  show ?thesis
    using h7 h4 e h8 by simp
qed

text \<open>
  Claim C7, as amended. For a relation with a join column and a provided value: when the
  subject has a snapshot and the related ids differ, the relation is pushed to
  \<^verbatim>\<open>diffRelations\<close> and its change map is upserted (the value of the first change map
  of the relation is replaced, or a new change map is appended when there is none); when
  the subject has no snapshot, the change map is upserted in the same way and
  \<^verbatim>\<open>diffRelations\<close> is left as it is.
\<close>

theorem changed_relation_is_recorded:
  "(truthy (entity s) \<and> r \<in> set (relationsWithJoinColumns (metadata s)) \<and>
    relationGetEntityValue h r (entity s) \<noteq> Undefined \<and> truthy (databaseEntity s) \<and>
    \<not> areRelatedIdsEqual h s r (relationGetEntityValue h r (entity s)) \<longrightarrow>
      r \<in> set (diffRelations (computeDiffRelationalColumns h allSubjects s)) \<and>
      relationEntries r (changeMaps (computeDiffRelationalColumns h allSubjects s)) =
        (case relationEntries r (changeMaps s) of
           [] \<Rightarrow> [\<lparr>cmColumn = None, cmRelation = Some r, cmValue = relationValue h allSubjects s r\<rparr>]
         | m # rest \<Rightarrow> m\<lparr>cmValue := relationValue h allSubjects s r\<rparr> # rest)) \<and>
   (truthy (entity s') \<and> r' \<in> set (relationsWithJoinColumns (metadata s')) \<and>
    relationGetEntityValue h r' (entity s') \<noteq> Undefined \<and> \<not> truthy (databaseEntity s') \<longrightarrow>
      diffRelations (computeDiffRelationalColumns h allSubjects s') = diffRelations s' \<and>
      relationEntries r' (changeMaps (computeDiffRelationalColumns h allSubjects s')) =
        (case relationEntries r' (changeMaps s') of
           [] \<Rightarrow> [\<lparr>cmColumn = None, cmRelation = Some r', cmValue = relationValue h allSubjects s' r'\<rparr>]
         | m # rest \<Rightarrow> m\<lparr>cmValue := relationValue h allSubjects s' r'\<rparr> # rest))"
proof (intro conjI impI)
  assume a: "truthy (entity s) \<and> r \<in> set (relationsWithJoinColumns (metadata s)) \<and>
    relationGetEntityValue h r (entity s) \<noteq> Undefined \<and> truthy (databaseEntity s) \<and>
    \<not> areRelatedIdsEqual h s r (relationGetEntityValue h r (entity s))"
  then have yes: "relationChanged h s r" by (simp add: relationChanged_def)
  show "r \<in> set (diffRelations (computeDiffRelationalColumns h allSubjects s))"
    using a yes by (simp add: relationPass_diffRelations)
  show "relationEntries r (changeMaps (computeDiffRelationalColumns h allSubjects s)) =
        (case relationEntries r (changeMaps s) of
           [] \<Rightarrow> [\<lparr>cmColumn = None, cmRelation = Some r, cmValue = relationValue h allSubjects s r\<rparr>]
         | m # rest \<Rightarrow> m\<lparr>cmValue := relationValue h allSubjects s r\<rparr> # rest)"
    using a yes by (simp add: relationPass_entries relationEntries_upsert)
next
  assume a: "truthy (entity s') \<and> r' \<in> set (relationsWithJoinColumns (metadata s')) \<and>
    relationGetEntityValue h r' (entity s') \<noteq> Undefined \<and> \<not> truthy (databaseEntity s')"
  then have yes: "relationChanged h s' r'" by (simp add: relationChanged_def)
  show "diffRelations (computeDiffRelationalColumns h allSubjects s') = diffRelations s'"
    using a by (simp add: relationPass_diffRelations)
  show "relationEntries r' (changeMaps (computeDiffRelationalColumns h allSubjects s')) =
        (case relationEntries r' (changeMaps s') of
           [] \<Rightarrow> [\<lparr>cmColumn = None, cmRelation = Some r', cmValue = relationValue h allSubjects s' r'\<rparr>]
         | m # rest \<Rightarrow> m\<lparr>cmValue := relationValue h allSubjects s' r'\<rparr> # rest)"
    using a yes by (simp add: relationPass_entries relationEntries_upsert)
qed

text \<open>
  \<open>linkedSubject\<close> has a snapshot with another tag, \<open>draftSubject\<close> has no snapshot.
\<close>

theorem changed_relation_is_recorded_witness:
  "tagRelation \<in> set (diffRelations (computeDiffRelationalColumns exHelpers [] linkedSubject)) \<and>
   relationEntries tagRelation (changeMaps (computeDiffRelationalColumns exHelpers [] linkedSubject)) =
     [\<lparr>cmColumn = None, cmRelation = Some tagRelation, cmValue = Plain (JObj 2 [(''id'', JNum 7)])\<rparr>] \<and>
   diffRelations (computeDiffRelationalColumns exHelpers [] draftSubject) = [] \<and>
   relationEntries ownerRelation (changeMaps (computeDiffRelationalColumns exHelpers [] draftSubject)) =
     [\<lparr>cmColumn = None, cmRelation = Some ownerRelation, cmValue = Plain Null\<rparr>]"
proof -
  note inst = changed_relation_is_recorded
               [of linkedSubject tagRelation exHelpers "[]" draftSubject ownerRelation]
  have a1: "truthy (entity linkedSubject) \<and>
    tagRelation \<in> set (relationsWithJoinColumns (metadata linkedSubject)) \<and>
    relationGetEntityValue exHelpers tagRelation (entity linkedSubject) \<noteq> Undefined \<and>
    truthy (databaseEntity linkedSubject) \<and>
    \<not> areRelatedIdsEqual exHelpers linkedSubject tagRelation
         (relationGetEntityValue exHelpers tagRelation (entity linkedSubject))"
    by (simp add: linkedSubject_def example_defs titleColumn_def bodyColumn_def tagIdColumn_def areRelatedIdsEqual_def instanceofObject_def
          exCompareIds_def exRelationIdMap_def)
  have a2: "truthy (entity draftSubject) \<and>
    ownerRelation \<in> set (relationsWithJoinColumns (metadata draftSubject)) \<and>
    relationGetEntityValue exHelpers ownerRelation (entity draftSubject) \<noteq> Undefined \<and>
    \<not> truthy (databaseEntity draftSubject)"
    by (simp add: draftSubject_def example_defs titleColumn_def bodyColumn_def tagIdColumn_def)
  have c1: "tagRelation \<in> set (diffRelations (computeDiffRelationalColumns exHelpers [] linkedSubject)) \<and>
      relationEntries tagRelation (changeMaps (computeDiffRelationalColumns exHelpers [] linkedSubject)) =
        (case relationEntries tagRelation (changeMaps linkedSubject) of
           [] \<Rightarrow> [\<lparr>cmColumn = None, cmRelation = Some tagRelation,
                    cmValue = relationValue exHelpers [] linkedSubject tagRelation\<rparr>]
         | m # rest \<Rightarrow> m\<lparr>cmValue := relationValue exHelpers [] linkedSubject tagRelation\<rparr> # rest)"
    using inst a1 by blast
  have c2: "diffRelations (computeDiffRelationalColumns exHelpers [] draftSubject) = diffRelations draftSubject \<and>
      relationEntries ownerRelation (changeMaps (computeDiffRelationalColumns exHelpers [] draftSubject)) =
        (case relationEntries ownerRelation (changeMaps draftSubject) of
           [] \<Rightarrow> [\<lparr>cmColumn = None, cmRelation = Some ownerRelation,
                    cmValue = relationValue exHelpers [] draftSubject ownerRelation\<rparr>]
         | m # rest \<Rightarrow> m\<lparr>cmValue := relationValue exHelpers [] draftSubject ownerRelation\<rparr> # rest)"
    using inst a2 by blast
  show ?thesis
    using c1 c2
    by (simp add: linkedSubject_def draftSubject_def example_defs titleColumn_def bodyColumn_def tagIdColumn_def relationEntries_def relationValue_def)
qed

text \<open>
  Claim C7 as stated fails for a subject without snapshot: the relation of the new post
  is provided and counts as changed, its change map is written, and \<^verbatim>\<open>diffRelations\<close>
  stays empty.
\<close>

theorem fresh_relation_not_in_diffRelations:
  "truthy (entity ([postSubject, newTagSubject] ! 0)) \<and>
   databaseEntity ([postSubject, newTagSubject] ! 0) = Undefined \<and>
   relationsWithJoinColumns (metadata ([postSubject, newTagSubject] ! 0)) = [tagRelation] \<and>
   relationGetEntityValue exHelpers tagRelation (entity ([postSubject, newTagSubject] ! 0)) =
     JObj 2 [(''name'', JStr ''x'')] \<and>
   diffRelations (compute exHelpers [postSubject, newTagSubject] ! 0) = [] \<and>
   changeMaps (compute exHelpers [postSubject, newTagSubject] ! 0) =
     [\<lparr>cmColumn = None, cmRelation = Some tagRelation, cmValue = SubjectRef 1\<rparr>]"
  by (simp add: compute_nth postSubject_def newTagSubject_def example_defs pass_defs)

text \<open>
  Claim C8, as amended. If the change maps of a subject are tagged with exactly one of a
  column and a relation and no two of them share a tag when \<^verbatim>\<open>compute\<close> starts (as is
  the case of the empty list of a new subject), the same holds after \<^verbatim>\<open>compute\<close>:
  every change map has exactly one tag, and there is at most one change map for each
  column and for each relation.
\<close>

theorem compute_keeps_change_maps_tagged_and_unique:
  assumes "i < length ss" and "changeMapsInvariant (changeMaps (ss ! i))"
  shows "changeMapsInvariant (changeMaps (compute h ss ! i)) \<and>
         list_all (\<lambda>m. (cmColumn m = None) \<noteq> (cmRelation m = None)) (changeMaps (compute h ss ! i)) \<and>
         length (columnEntries c (changeMaps (compute h ss ! i))) \<le> 1 \<and>
         length (relationEntries r (changeMaps (compute h ss ! i))) \<le> 1"
proof -
  have inv: "changeMapsInvariant (changeMaps (compute h ss ! i))"
    using assms by (simp add: compute_nth invariant_columnPass invariant_relationPass)
  then have "list_all wellTagged (changeMaps (compute h ss ! i))"
    by (simp add: changeMapsInvariant_def)
  then have "list_all (\<lambda>m. (cmColumn m = None) \<noteq> (cmRelation m = None)) (changeMaps (compute h ss ! i))"
    by (simp add: list_all_iff wellTagged_def)
  with inv invariant_columnEntries [OF inv, of c] invariant_relationEntries [OF inv, of r]
  show ?thesis by simp
qed

text \<open>
  \<open>reworkedSubject\<close> starts with a change map of its title and lists the title column
  and the owner relation twice: the existing change map is updated, nothing is
  duplicated.
\<close>

theorem compute_keeps_change_maps_tagged_and_unique_witness:
  "changeMapsInvariant (changeMaps ([reworkedSubject] ! 0)) \<and>
   changeMaps (compute exHelpers [reworkedSubject] ! 0) =
     [\<lparr>cmColumn = Some titleColumn, cmRelation = None, cmValue = Plain (JStr ''b'')\<rparr>,
      \<lparr>cmColumn = Some bodyColumn, cmRelation = None, cmValue = Plain Null\<rparr>,
      \<lparr>cmColumn = None, cmRelation = Some ownerRelation, cmValue = Plain (JNum 3)\<rparr>] \<and>
   changeMapsInvariant (changeMaps (compute exHelpers [reworkedSubject] ! 0)) \<and>
   length (columnEntries titleColumn (changeMaps (compute exHelpers [reworkedSubject] ! 0))) \<le> 1 \<and>
   length (relationEntries ownerRelation (changeMaps (compute exHelpers [reworkedSubject] ! 0))) \<le> 1"
proof -
  have i: "0 < length [reworkedSubject]" by simp
  have inv: "changeMapsInvariant (changeMaps ([reworkedSubject] ! 0))"
    by (simp add: reworkedSubject_def freshSubject_def changeMapsInvariant_def wellTagged_def)
  have ev: "changeMaps (compute exHelpers [reworkedSubject] ! 0) =
     [\<lparr>cmColumn = Some titleColumn, cmRelation = None, cmValue = Plain (JStr ''b'')\<rparr>,
      \<lparr>cmColumn = Some bodyColumn, cmRelation = None, cmValue = Plain Null\<rparr>,
      \<lparr>cmColumn = None, cmRelation = Some ownerRelation, cmValue = Plain (JNum 3)\<rparr>]"
    by (simp add: compute_nth reworkedSubject_def example_defs titleColumn_def bodyColumn_def pass_defs)
  from compute_keeps_change_maps_tagged_and_unique [OF i inv, of exHelpers titleColumn ownerRelation]
  show ?thesis using inv ev by simp
qed

text \<open>
  Claim C8 as stated, for any list of subjects, fails: a change map with both tags and a
  second change map of the same column are still there after \<^verbatim>\<open>compute\<close>, which
  updates the first entry it finds and repairs nothing.
\<close>

theorem malformed_change_maps_survive_compute:
  "changeMaps (compute exHelpers [malformedSubject] ! 0) =
     [\<lparr>cmColumn = Some titleColumn, cmRelation = Some ownerRelation, cmValue = Plain (JNum 3)\<rparr>,
      \<lparr>cmColumn = Some titleColumn, cmRelation = None, cmValue = Plain (JStr ''a'')\<rparr>] \<and>
   \<not> wellTagged (hd (changeMaps (compute exHelpers [malformedSubject] ! 0))) \<and>
   length (columnEntries titleColumn (changeMaps (compute exHelpers [malformedSubject] ! 0))) = 2"
  by (simp add: compute_nth malformedSubject_def example_defs titleColumn_def pass_defs
        wellTagged_def columnEntries_def)

text \<open>
  Claim C1 against the code. The column type of a delimited array is
  \<^verbatim>\<open>"simple-array"\<close>, the computer tests for \<^verbatim>\<open>"sample-array"\<close>; the two sides of such a
  column are therefore compared as array objects. An entity saved again with the same
  array contents (both sides join to \<open>a,b\<close>) is reported as changed.
\<close>

theorem simple_array_resaved_is_reported_changed:
  "columnType tagsColumn = TypeName ''simple-array'' \<and>
   truthy (databaseEntity arraySubject) \<and>
   simpleArrayToString exHelpers (columnGetEntityValue exHelpers tagsColumn (entity arraySubject)) = JStr ''a,b'' \<and>
   simpleArrayToString exHelpers (columnGetEntityValue exHelpers tagsColumn (databaseEntity arraySubject)) = JStr ''a,b'' \<and>
   normalizeValuesSpec exHelpers (columnType tagsColumn)
     (columnGetEntityValue exHelpers tagsColumn (entity arraySubject))
     (columnGetEntityValue exHelpers tagsColumn (databaseEntity arraySubject)) = (JStr ''a,b'', JStr ''a,b'') \<and>
   normalizeValues exHelpers (columnType tagsColumn)
     (columnGetEntityValue exHelpers tagsColumn (entity arraySubject))
     (columnGetEntityValue exHelpers tagsColumn (databaseEntity arraySubject)) =
       (JArr 2 [JStr ''a'', JStr ''b''], JArr 4 [JStr ''a'', JStr ''b'']) \<and>
   diffColumns (compute exHelpers [arraySubject] ! 0) = [tagsColumn] \<and>
   changeMaps (compute exHelpers [arraySubject] ! 0) =
     [\<lparr>cmColumn = Some tagsColumn, cmRelation = None,
       cmValue = Plain (JArr 2 [JStr ''a'', JStr ''b''])\<rparr>]"
  by (simp add: compute_nth arraySubject_def tagsColumn_def example_defs pass_defs
        exSimpleArrayToString_def normalizeValuesSpec_def)

text \<open>
  Claim C2 against the code. The comment at lines 131--135 announces that a bare id is
  turned into an id map for the comparison; line 137 reduces objects only, and the bare
  id reaches \<^verbatim>\<open>compareIds\<close> as it is. Against the snapshot \<open>{id: 2}\<close>, the entity
  \<open>{id: 2}\<close> is found unchanged and nothing is recorded, while the bare id 2 is found
  changed: the relation is pushed to \<^verbatim>\<open>diffRelations\<close> and a change map is written.
\<close>

theorem bare_id_is_compared_unreduced:
  "relationGetEntityValue exHelpers tagRelation (entity scalarSubject) = JNum 2 \<and>
   relationGetEntityValue exHelpers tagRelation (entity entitySubject) = JObj 5 [(''id'', JNum 2)] \<and>
   databaseEntity scalarSubject = databaseEntity entitySubject \<and>
   relationGetEntityValue exHelpers tagRelation (databaseEntity scalarSubject) =
     JObj 4 [(''id'', JNum 2)] \<and>
   getRelationIdMap exHelpers tagRelation (JObj 5 [(''id'', JNum 2)]) = JObj 0 [(''id'', JNum 2)] \<and>
   areRelatedIdsEqual exHelpers entitySubject tagRelation (JObj 5 [(''id'', JNum 2)]) \<and>
   \<not> areRelatedIdsEqual exHelpers scalarSubject tagRelation (JNum 2) \<and>
   compute exHelpers [entitySubject] ! 0 = entitySubject \<and>
   diffRelations (compute exHelpers [entitySubject] ! 0) = [] \<and>
   changeMaps (compute exHelpers [entitySubject] ! 0) = [] \<and>
   diffRelations (compute exHelpers [scalarSubject] ! 0) = [tagRelation] \<and>
   changeMaps (compute exHelpers [scalarSubject] ! 0) =
     [\<lparr>cmColumn = None, cmRelation = Some tagRelation, cmValue = Plain (JNum 2)\<rparr>]"
  by (simp add: compute_nth scalarSubject_def entitySubject_def example_defs pass_defs
        exCompareIds_def exRelationIdMap_def)


section \<open>Properties of the execution of a delete\<close>




end
